theory Spec2Isabelle
  imports Complex_Main
begin

unbundle bit_operations_syntax

section \<open>PYPOWER \<open>opf_execute\<close>: solver dispatch and result assembly\<close>

text \<open>
  A shallow embedding of \<^verbatim>\<open>src/pypower/opf_execute.py\<close>. Python integers are \<open>int\<close>,
  the entries of numpy float arrays are the \<open>real\<close> values of finite float64 numbers, and
  arithmetic on them rounds as float64 does (\<open>fl\<close> below),
  dictionaries with a fixed schema are records whose optional keys are \<open>option\<close> fields,
  dictionaries keyed by block names are maps, and every exception the function can raise on
  its own is a value \<open>Inl e\<close>.
\<close>

subsection \<open>Exceptions and sequencing\<close>

datatype error =
    UnboundLocalError string
  | KeyError string
  | TypeError
  | IndexError
  | ValueError
  | SolverError string

definition ebind :: "error + 'a \<Rightarrow> ('a \<Rightarrow> error + 'b) \<Rightarrow> error + 'b" where
  "ebind m f = (case m of Inl e \<Rightarrow> Inl e | Inr v \<Rightarrow> f v)"

fun mapM :: "('a \<Rightarrow> error + 'b) \<Rightarrow> 'a list \<Rightarrow> error + 'b list" where
  "mapM f [] = Inr []"
| "mapM f (a # as) = ebind (f a) (\<lambda>b. ebind (mapM f as) (\<lambda>bs. Inr (b # bs)))"

definition lookup :: "(string \<rightharpoonup> 'v) \<Rightarrow> string \<Rightarrow> error + 'v" where
  \<comment> \<open>\<^verbatim>\<open>d[k]\<close> on a dictionary: a missing key raises KeyError.\<close>
  "lookup d k = (case d k of None \<Rightarrow> Inl (KeyError k) | Some v \<Rightarrow> Inr v)"

subsection \<open>Python and numpy primitives\<close>

text \<open>\<^verbatim>\<open>'%d' % n\<close> for an integer: its decimal digits, with a leading minus sign.\<close>

definition digit_char :: "nat \<Rightarrow> char" where
  "digit_char n = ''0123456789'' ! (n mod 10)"

function dec_nat :: "nat \<Rightarrow> string" where
  "dec_nat n = (if n < 10 then [digit_char n] else dec_nat (n div 10) @ [digit_char (n mod 10)])"
  by pat_completeness auto
termination
  by (relation "measure id") auto

declare dec_nat.simps [simp del]

definition fmt_d :: "int \<Rightarrow> string" where
  "fmt_d i = (if i < 0 then ''-'' @ dec_nat (nat (- i)) else dec_nat (nat i))"

definition newline :: string where
  "newline = [CHR 0x0A]"

text \<open>
  Indexing a sequence of length \<open>n\<close> with an integer: a negative index counts from the end,
  an index outside \<open>[-n, n)\<close> raises IndexError.
\<close>

definition py_index :: "nat \<Rightarrow> int \<Rightarrow> error + nat" where
  "py_index n i =
     (let j = (if i < 0 then i + int n else i)
      in if 0 \<le> j \<and> j < int n then Inr (nat j) else Inl IndexError)"

text \<open>\<^verbatim>\<open>xs[idx]\<close> with an integer index array (numpy fancy indexing).\<close>

definition take_idx :: "'a list \<Rightarrow> int list \<Rightarrow> error + 'a list" where
  "take_idx xs idx = mapM (\<lambda>i. ebind (py_index (length xs) i) (\<lambda>j. Inr (xs ! j))) idx"

text \<open>\<^verbatim>\<open>arange(a, b)\<close>: the integers \<open>a, a + 1, ..., b - 1\<close>, none when \<open>b \<le> a\<close>.\<close>

definition arange :: "int \<Rightarrow> int \<Rightarrow> int list" where
  "arange a b = map (\<lambda>k. a + int k) [0..<nat (b - a)]"

text \<open>
  Basic slices \<^verbatim>\<open>xs[a:b]\<close>, \<^verbatim>\<open>xs[:b]\<close> and \<^verbatim>\<open>xs[a:]\<close>: a negative bound counts
  from the end and every bound is clamped to \<open>[0, len]\<close>; slices never raise.
\<close>

definition slice_bound :: "nat \<Rightarrow> int \<Rightarrow> nat" where
  "slice_bound n i = (if i < 0 then nat (max 0 (i + int n)) else min (nat i) n)"

definition py_slice :: "'a list \<Rightarrow> int \<Rightarrow> int \<Rightarrow> 'a list" where
  "py_slice xs a b =
     (let lo = slice_bound (length xs) a; hi = slice_bound (length xs) b
      in take (hi - lo) (drop lo xs))"

definition slice_to :: "'a list \<Rightarrow> int \<Rightarrow> 'a list" where
  "slice_to xs b = take (slice_bound (length xs) b) xs"

definition slice_from :: "'a list \<Rightarrow> int \<Rightarrow> 'a list" where
  "slice_from xs a = drop (slice_bound (length xs) a) xs"

text \<open>
  float64 arithmetic. An operation on two finite float64 numbers returns the float64
  number nearest to the exact result, a tie going to the one with an even significand.
  \<open>ilog2 r\<close> is the binary exponent of a positive \<open>r\<close> (\<open>2 ^ e \<le> r < 2 ^ (e + 1)\<close>); a
  float64 number has 53 significant bits, so the numbers near \<open>r\<close> are the multiples of
  \<open>2 ^ (e - 52)\<close>, and of \<open>2 ^ (- 1074)\<close> in the subnormal range. Infinities and NaN are
  not values of the model: \<open>fl r\<close> is what float64 returns only while it stays in the
  finite range, which \<open>in_range64\<close> states.
\<close>

definition round_even :: "real \<Rightarrow> int" where
  "round_even r =
     (let f = \<lfloor>r\<rfloor>; d = r - of_int f
      in if d < 1 / 2 then f else if 1 / 2 < d then f + 1 else if even f then f else f + 1)"

function ilog2 :: "real \<Rightarrow> int" where
  "ilog2 r = (if r \<le> 0 then 0
              else if r < 1 then ilog2 (2 * r) - 1
              else if 2 \<le> r then ilog2 (r / 2) + 1
              else 0)"
  by pat_completeness auto
termination
proof (relation "measure (\<lambda>r. nat \<lceil>\<bar>log 2 r\<bar>\<rceil> + (if r < 1 then 1 else 0))")
  show "wf (measure (\<lambda>r. nat \<lceil>\<bar>log 2 r\<bar>\<rceil> + (if r < 1 then 1 else 0)))" by simp
next
  fix r :: real
  assume "\<not> r \<le> 0" and r1: "r < 1"
  then have r0: "0 < r" by simp
  have l2: "log 2 (2 * r) = 1 + log 2 r" using r0 by (simp add: log_mult)
  have neg: "log 2 r < 0" using r0 r1 by simp
  show "(2 * r, r) \<in> measure (\<lambda>r. nat \<lceil>\<bar>log 2 r\<bar>\<rceil> + (if r < 1 then 1 else 0))"
  proof (cases "2 * r < 1")
    case True
    then have "log 2 (2 * r) < 0" using r0 by simp
    with l2 have lt: "log 2 r < - 1" by simp
    then have "\<bar>log 2 (2 * r)\<bar> = \<bar>log 2 r\<bar> - 1" using l2 by simp
    moreover have "2 \<le> \<lceil>\<bar>log 2 r\<bar>\<rceil>" using lt by (simp add: le_ceiling_iff)
    ultimately show ?thesis using True r1 by simp
  next
    case False
    then have nn: "0 \<le> log 2 (2 * r)" using r0 by simp
    have lt1: "log 2 (2 * r) < 1" using l2 neg by simp
    have a1: "\<bar>log 2 (2 * r)\<bar> = log 2 (2 * r)" using nn by simp
    have a2: "\<bar>log 2 r\<bar> = - log 2 r" using neg by simp
    have c1: "\<lceil>log 2 (2 * r)\<rceil> \<le> 1" using lt1 by (simp add: ceiling_le_iff)
    have c2: "1 \<le> \<lceil>- log 2 r\<rceil>" using neg by (simp add: le_ceiling_iff)
    from c1 c2 have "nat \<lceil>log 2 (2 * r)\<rceil> < Suc (nat \<lceil>- log 2 r\<rceil>)" by linarith
    then show ?thesis using False r1 by (simp add: a1 a2)
  qed
next
  fix r :: real
  assume "\<not> r \<le> 0" and "\<not> r < 1" and r2: "2 \<le> r"
  then have r0: "0 < r" by simp
  have l2: "log 2 (r / 2) = log 2 r - 1" using r0 by (simp add: log_divide)
  have ge: "1 \<le> log 2 r" using r2 r0 by (simp add: le_log_iff)
  then have "\<bar>log 2 (r / 2)\<bar> = \<bar>log 2 r\<bar> - 1" using l2 by simp
  moreover have "1 \<le> \<lceil>\<bar>log 2 r\<bar>\<rceil>" using ge by (simp add: le_ceiling_iff)
  ultimately show "(r / 2, r) \<in> measure (\<lambda>r. nat \<lceil>\<bar>log 2 r\<bar>\<rceil> + (if r < 1 then 1 else 0))"
    using r2 by simp
qed

declare ilog2.simps [simp del]

definition pow2 :: "int \<Rightarrow> real" where
  "pow2 e = (if 0 \<le> e then 2 ^ nat e else 1 / 2 ^ nat (- e))"

definition fl :: "real \<Rightarrow> real" where
  "fl r = (if r = 0 then 0
           else (let e = max (ilog2 \<bar>r\<bar> - 52) (- 1074)
                 in of_int (round_even (r / pow2 e)) * pow2 e))"

definition in_range64 :: "real \<Rightarrow> bool" where
  "in_range64 x = (\<bar>x\<bar> < 2 ^ 1024)"

text \<open>numpy's \<^verbatim>\<open>pi\<close>: the float64 number nearest to \<open>\<pi>\<close>, \<^verbatim>\<open>3.141592653589793\<close>.\<close>

definition pi64 :: real where
  "pi64 = 884279719003555 / 281474976710656"

text \<open>
  Elementwise \<^verbatim>\<open>a - b\<close> on one-dimensional arrays: equal lengths, or one operand of
  length one that is broadcast; any other pair of lengths raises ValueError. Each
  difference is rounded.
\<close>

definition vsub :: "real list \<Rightarrow> real list \<Rightarrow> error + real list" where
  "vsub a b =
     (if length a = length b then Inr (map2 (\<lambda>x y. fl (x - y)) a b)
      else if length a = 1 then Inr (map (\<lambda>y. fl (a ! 0 - y)) b)
      else if length b = 1 then Inr (map (\<lambda>x. fl (x - b ! 0)) a)
      else Inl ValueError)"

text \<open>\<^verbatim>\<open>.astype(int)\<close> on a float: truncation towards zero.\<close>

definition astype_int :: "real \<Rightarrow> int" where
  "astype_int r = (if 0 \<le> r then \<lfloor>r\<rfloor> else \<lceil>r\<rceil>)"

text \<open>
  A two-dimensional float array: its column count and its rows. A numpy array is
  rectangular, which \<open>wf_matrix\<close> states.
\<close>

record matrix =
  ncols :: nat
  rows :: "real list list"

definition wf_matrix :: "matrix \<Rightarrow> bool" where
  "wf_matrix m = list_all (\<lambda>r. length r = ncols m) (rows m)"

text \<open>\<^verbatim>\<open>m[:, c]\<close>.\<close>

definition get_col :: "matrix \<Rightarrow> nat \<Rightarrow> error + real list" where
  "get_col m c = (if c < ncols m then Inr (map (\<lambda>r. r ! c) (rows m)) else Inl IndexError)"

text \<open>\<^verbatim>\<open>m[idx, c]\<close> with an integer array of row indices.\<close>

definition get_rows_col :: "matrix \<Rightarrow> int list \<Rightarrow> nat \<Rightarrow> error + real list" where
  "get_rows_col m idx c =
     (if c < ncols m then take_idx (map (\<lambda>r. r ! c) (rows m)) idx else Inl IndexError)"

text \<open>
  \<^verbatim>\<open>m[:, c] = v\<close> and \<^verbatim>\<open>m[idx, c] = v\<close>. The value must have one entry per
  addressed row, or a single entry that is broadcast. With a repeated row index the
  assignments happen in order, so the last one stays. Where an index is out of range and
  the shapes disagree as well, the model reports the IndexError; nothing below depends
  on which of the two numpy raises.
\<close>

definition put_cells :: "nat \<Rightarrow> (nat \<times> real) list \<Rightarrow> real list list \<Rightarrow> real list list" where
  "put_cells c jv rs = fold (\<lambda>(j, v) rs. rs[j := (rs ! j)[c := v]]) jv rs"

definition set_rows_col :: "matrix \<Rightarrow> int list \<Rightarrow> nat \<Rightarrow> real list \<Rightarrow> error + matrix" where
  "set_rows_col m idx c v =
     (if ncols m \<le> c then Inl IndexError
      else ebind (mapM (py_index (length (rows m))) idx) (\<lambda>js.
        if length v = length js then Inr (m\<lparr>rows := put_cells c (zip js v) (rows m)\<rparr>)
        else if length v = 1
          then Inr (m\<lparr>rows := put_cells c (zip js (replicate (length js) (v ! 0))) (rows m)\<rparr>)
        else Inl ValueError))"

definition set_col :: "matrix \<Rightarrow> nat \<Rightarrow> real list \<Rightarrow> error + matrix" where
  "set_col m c v = set_rows_col m (arange 0 (int (length (rows m)))) c v"

text \<open>A one- or two-dimensional array stored under a derivative key.\<close>

datatype arr = Vec "real list" | Mat "real list list"

text \<open>A value a backend may leave in its diagnostics; \<^verbatim>\<open>len\<close> of a number raises.\<close>

datatype pyval = PInt int | PFloat real | PStr string | PArr "real list"

definition py_len :: "pyval \<Rightarrow> error + nat" where
  "py_len v = (case v of PInt _ \<Rightarrow> Inl TypeError | PFloat _ \<Rightarrow> Inl TypeError
                       | PStr s \<Rightarrow> Inr (length s) | PArr a \<Rightarrow> Inr (length a))"

subsection \<open>Data model\<close>

text \<open>
  One space of the block index registry, as \<^verbatim>\<open>om.get_idx()\<close> returns it: first index,
  end index and width of every block name.
\<close>

record idx =
  idx_i1 :: "string \<rightharpoonup> int"
  idx_iN :: "string \<rightharpoonup> int"
  idx_N :: "string \<rightharpoonup> int"

record ppc =
  ppc_baseMVA :: real
  ppc_bus :: matrix
  ppc_branch :: matrix

text \<open>
  The OPF model object, read after \<^verbatim>\<open>om.build_cost_params()\<close> has run. \<open>get_idx\<close> is
  \<open>(vv, ll, nn, cc)\<close>; \<open>getN om space name\<close> is \<^verbatim>\<open>om.getN(space, name)\<close>; the three
  \<open>userdata\<close> fields are \<^verbatim>\<open>om.userdata\<close> at the keys the function reads. The type
  \<open>'a\<close> is that of \<^verbatim>\<open>Apqdata\<close>, which is only handed on.
\<close>

record 'a om =
  var_order :: "string list"
  lin_order :: "string list"
  nln_order :: "string list"
  cost_order :: "string list"
  get_idx :: "idx \<times> idx \<times> idx \<times> idx"
  getN :: "string \<Rightarrow> string \<Rightarrow> int"
  userdata_Apqdata :: 'a
  userdata_iang :: "int list"
  userdata_pwl1 :: "int list"
  compute_cost :: "real list \<Rightarrow> string \<Rightarrow> real"
  get_ppc :: ppc

text \<open>The options the function reads, and the one it writes (\<open>OPF_ALG_POLY\<close>).\<close>

record ppopt =
  PF_DC :: bool
  OPF_ALG :: int
  VERBOSE :: int
  RETURN_RAW_DER :: bool
  OPF_ALG_POLY :: "int option"

record mu =
  mu_var_l :: "real list"
  mu_var_u :: "real list"
  mu_lin_l :: "real list"
  mu_lin_u :: "real list"
  mu_nln_l :: "real list"
  mu_nln_u :: "real list"

record var_res =
  var_val :: "string \<rightharpoonup> real list"
  var_mu_l :: "string \<rightharpoonup> real list"
  var_mu_u :: "string \<rightharpoonup> real list"

record con_res =
  con_mu_l :: "string \<rightharpoonup> real list"
  con_mu_u :: "string \<rightharpoonup> real list"

text \<open>
  The \<^verbatim>\<open>results\<close> dictionary. What every backend returns is a plain field; the legacy
  keys \<^verbatim>\<open>'dg'\<close>, \<^verbatim>\<open>'g'\<close> and the four sub-mappings the expander creates are optional.
\<close>

record results =
  res_baseMVA :: real
  res_bus :: matrix
  res_gen :: matrix
  res_branch :: matrix
  res_x :: "real list"
  res_mu :: mu
  res_dg :: "arr option"
  res_g :: "arr option"
  res_var :: "var_res option"
  res_lin :: "con_res option"
  res_nln :: "con_res option"
  res_cost :: "(string \<rightharpoonup> real) option"

text \<open>
  The \<^verbatim>\<open>raw\<close> dictionary and its \<^verbatim>\<open>'output'\<close> entry; \<open>raw_rest\<close> and \<open>out_rest\<close>
  hold every key the function never names (solver diagnostics).
\<close>

record solver_output =
  out_alg :: "pyval option"
  out_rest :: "string \<rightharpoonup> pyval"

record raw =
  raw_output :: "solver_output option"
  raw_xr :: "real list option"
  raw_g :: "arr option"
  raw_dg :: "arr option"
  raw_df :: "arr option"
  raw_d2f :: "arr option"
  raw_rest :: "string \<rightharpoonup> pyval"

definition empty_raw :: raw where
  \<comment> \<open>\<^verbatim>\<open>{}\<close>\<close>
  "empty_raw = \<lparr>raw_output = None, raw_xr = None, raw_g = None, raw_dg = None,
                 raw_df = None, raw_d2f = None, raw_rest = Map.empty\<rparr>"

text \<open>
  What the module imports and calls: the three backends (each returns
  \<open>(results, success, raw)\<close> or raises), whether \<^verbatim>\<open>__import__('pyipopt')\<close> succeeds,
  the helper routines, and the column constants of \<^verbatim>\<open>idx_bus\<close>, \<^verbatim>\<open>idx_gen\<close> and
  \<^verbatim>\<open>idx_brch\<close>. None of them is part of this file, so they are parameters. The type
  \<open>'y\<close> is that of the admittance matrices \<^verbatim>\<open>(Ybus, Yf, Yt)\<close>.
\<close>

record ('a, 'y) env =
  ppver_Version :: string
  ppver_Date :: string
  dcopf_solver :: "'a om \<Rightarrow> ppopt \<Rightarrow> error + (results \<times> bool \<times> raw)"
  pipsopf_solver :: "'a om \<Rightarrow> ppopt \<Rightarrow> error + (results \<times> bool \<times> raw)"
  ipoptopf_solver :: "'a om \<Rightarrow> ppopt \<Rightarrow> error + (results \<times> bool \<times> raw)"
  pyipopt_importable :: bool
  update_mupq :: "real \<Rightarrow> matrix \<Rightarrow> real list \<Rightarrow> real list \<Rightarrow> 'a \<Rightarrow> matrix"
  makeYbus :: "real \<Rightarrow> matrix \<Rightarrow> matrix \<Rightarrow> 'y"
  opf_consfcn :: "real list \<Rightarrow> 'a om \<Rightarrow> 'y \<Rightarrow> ppopt
                   \<Rightarrow> real list \<times> real list \<times> real list list \<times> real list list"
  opf_costfcn :: "real list \<Rightarrow> 'a om \<Rightarrow> real \<times> arr \<times> arr"
  VM :: nat
  GEN_BUS :: nat
  VG :: nat
  MU_ANGMIN :: nat
  MU_ANGMAX :: nat

text \<open>What the call leaves behind besides its result: the two streams and the options.\<close>

record world =
  w_stdout :: "string list"
  w_stderr :: "string list"
  w_ppopt :: ppopt

subsection \<open>Solver dispatch (lines 46 to 97)\<close>

text \<open>
  Lines 76 to 83. In Python \<^verbatim>\<open>|\<close> binds tighter than \<^verbatim>\<open>==\<close>, and
  \<^verbatim>\<open>a == b == c\<close> is the chained comparison \<^verbatim>\<open>a == b and b == c\<close>. So
  \<^verbatim>\<open>alg == 100 | alg == 200\<close> is \<^verbatim>\<open>alg == (100 | alg) and (100 | alg) == 200\<close>,
  with \<^verbatim>\<open>|\<close> the bitwise or of two integers.
\<close>

definition update_deprecated :: "int \<Rightarrow> int" where
  "update_deprecated alg =
     (if alg = (100 OR alg) \<and> (100 OR alg) = 200 then 300
      else if alg = (120 OR alg) \<and> (120 OR alg) = 220 then 320
      else if alg = (140 OR alg) \<and> (140 OR alg) = 240 then 340
      else if alg = (160 OR alg) \<and> (160 OR alg) = 260 then 360
      else alg)"

definition banner :: "('a, 'y) env \<Rightarrow> string" where
  "banner env = newline @ ''MATPOWER Version '' @ ppver_Version env @ '', '' @ ppver_Date env"

definition msg_requires_ipopt :: "int \<Rightarrow> string" where
  "msg_requires_ipopt alg =
     ''opf_execute: OPF_ALG '' @ fmt_d alg
       @ '' requires IPOPT (see https://projects.coin-or.org/Ipopt/)'' @ newline"

definition msg_not_valid :: "int \<Rightarrow> string" where
  "msg_not_valid alg =
     ''opf_execute: OPF_ALG '' @ fmt_d alg @ '' is not a valid algorithm code'' @ newline"

text \<open>
  The dispatcher returns the streams and options it leaves behind, the value of the local
  \<^verbatim>\<open>alg\<close>, and what became of \<^verbatim>\<open>results, success, raw\<close>: an exception of the backend
  (\<open>Inl\<close>), the three locals bound (\<open>Inr (Some t)\<close>), or the three locals never assigned
  (\<open>Inr None\<close>), which is how the two branches that only write to stderr end. The bare
  \<^verbatim>\<open>except:\<close> of line 94 catches a failed import and any exception of the IPOPT backend.
\<close>

definition run_ac ::
  "('a, 'y) env \<Rightarrow> 'a om \<Rightarrow> ppopt \<Rightarrow> int
     \<Rightarrow> string list \<times> (error + (results \<times> bool \<times> raw) option)" where
  "run_ac env om ppopt alg =
     (if alg = 560 \<or> alg = 565 then
        ([], case pipsopf_solver env om ppopt of Inl e \<Rightarrow> Inl e | Inr t \<Rightarrow> Inr (Some t))
      else if alg = 580 then
        (if pyipopt_importable env then
           (case ipoptopf_solver env om ppopt of
              Inr t \<Rightarrow> ([], Inr (Some t))
            | Inl e \<Rightarrow> ([msg_requires_ipopt alg], Inr None))
         else ([msg_requires_ipopt alg], Inr None))
      else ([msg_not_valid alg], Inr None))"

definition dispatch ::
  "('a, 'y) env \<Rightarrow> 'a om \<Rightarrow> ppopt
     \<Rightarrow> world \<times> int \<times> (error + (results \<times> bool \<times> raw) option)" where
  "dispatch env om ppopt =
     (let dc = PF_DC ppopt; alg = OPF_ALG ppopt; verbose = VERBOSE ppopt;
          out0 = (if verbose > 0 then [banner env] else [])
      in if dc then
           (\<lparr>w_stdout = out0 @ (if verbose > 0 then ['' -- DC Optimal Power Flow'' @ newline] else []),
             w_stderr = [], w_ppopt = ppopt\<rparr>,
            alg,
            case dcopf_solver env om ppopt of Inl e \<Rightarrow> Inl e | Inr t \<Rightarrow> Inr (Some t))
         else
           (let out1 = out0 @ (if verbose > 0 then ['' -- AC Optimal Power Flow'' @ newline] else []);
                alg1 = (if alg = 0 then 560 else alg);
                alg2 = update_deprecated alg1;
                ppopt' = ppopt\<lparr>OPF_ALG_POLY := Some alg2\<rparr>;
                (err, solved) = run_ac env om ppopt' alg2
            in (\<lparr>w_stdout = out1, w_stderr = err, w_ppopt = ppopt'\<rparr>, alg2, solved)))"

subsection \<open>Algorithm stamp (lines 99 and 100)\<close>

text \<open>
  The three tests are evaluated left to right and stop at the first that holds; the
  assignment \<^verbatim>\<open>raw['output']['alg'] = alg\<close> then reads \<^verbatim>\<open>raw['output']\<close>, which raises
  KeyError when the first test was the one that held.
\<close>

definition stamp_alg :: "int \<Rightarrow> raw \<Rightarrow> error + raw" where
  "stamp_alg alg raw =
     (case raw_output raw of
        None \<Rightarrow> Inl (KeyError ''output'')
      | Some out \<Rightarrow>
          (case out_alg out of
             None \<Rightarrow> Inr (raw\<lparr>raw_output := Some (out\<lparr>out_alg := Some (PInt alg)\<rparr>)\<rparr>)
           | Some v \<Rightarrow>
               ebind (py_len v) (\<lambda>n.
                 if n = 0 then Inr (raw\<lparr>raw_output := Some (out\<lparr>out_alg := Some (PInt alg)\<rparr>)\<rparr>)
                 else Inr raw)))"

subsection \<open>Post-solve corrector (lines 102 to 151)\<close>

text \<open>Line 105.\<close>

definition copy_vg :: "('a, 'y) env \<Rightarrow> results \<Rightarrow> error + results" where
  "copy_vg env r =
     ebind (get_col (res_gen r) (GEN_BUS env)) (\<lambda>gb.
     ebind (get_rows_col (res_bus r) (map astype_int gb) (VM env)) (\<lambda>vm.
     ebind (set_col (res_gen r) (VG env) vm) (\<lambda>g.
     Inr (r\<lparr>res_gen := g\<rparr>))))"

text \<open>
  Lines 108 to 112. Both widths are read before they are combined: the parenthesised
  \<^verbatim>\<open>|\<close> of line 108 is a bitwise or of two booleans, which does not short-circuit.
\<close>

definition pq_multipliers ::
  "('a, 'y) env \<Rightarrow> 'a om \<Rightarrow> idx \<Rightarrow> results \<Rightarrow> error + results" where
  "pq_multipliers env om ll r =
     ebind (lookup (idx_N ll) ''PQh'') (\<lambda>nh.
     ebind (lookup (idx_N ll) ''PQl'') (\<lambda>nl.
       if nh > 0 \<or> nl > 0 then
         ebind (lookup (idx_i1 ll) ''PQh'') (\<lambda>h1.
         ebind (lookup (idx_iN ll) ''PQh'') (\<lambda>hN.
         ebind (vsub (py_slice (mu_lin_l (res_mu r)) h1 hN)
                     (py_slice (mu_lin_u (res_mu r)) h1 hN)) (\<lambda>mu_PQh.
         ebind (lookup (idx_i1 ll) ''PQl'') (\<lambda>l1.
         ebind (lookup (idx_iN ll) ''PQl'') (\<lambda>lN.
         ebind (vsub (py_slice (mu_lin_l (res_mu r)) l1 lN)
                     (py_slice (mu_lin_u (res_mu r)) l1 lN)) (\<lambda>mu_PQl.
         Inr (r\<lparr>res_gen := update_mupq env (res_baseMVA r) (res_gen r) mu_PQh mu_PQl
                                (userdata_Apqdata om)\<rparr>)))))))
       else Inr r))"

text \<open>
  Lines 115 to 133. \<^verbatim>\<open>r_[geq, g]\<close> joins two vectors; \<^verbatim>\<open>r_[dgeq.T, dg.T]\<close> stacks the
  rows of the two transposes, which must have the same number of columns.
\<close>

definition move_legacy :: "results \<Rightarrow> raw \<Rightarrow> error + raw" where
  "move_legacy r raw =
     (case res_dg r of
        None \<Rightarrow> Inr raw
      | Some d \<Rightarrow>
          (case res_g r of
             None \<Rightarrow> Inl (KeyError ''g'')
           | Some g \<Rightarrow> Inr (empty_raw\<lparr>raw_dg := Some d, raw_g := Some g\<rparr>)))"

definition compute_g_dg ::
  "('a, 'y) env \<Rightarrow> 'a om \<Rightarrow> ppopt \<Rightarrow> results \<Rightarrow> raw \<Rightarrow> error + raw" where
  "compute_g_dg env om ppopt r raw =
     (if raw_dg raw = None then
        (let ppc = get_ppc om;
             Y = makeYbus env (ppc_baseMVA ppc) (ppc_bus ppc) (ppc_branch ppc);
             (g, geq, dg, dgeq) = opf_consfcn env (res_x r) om Y ppopt
         in if length dgeq = length dg
            then Inr (raw\<lparr>raw_g := Some (Vec (geq @ g)),
                          raw_dg := Some (Mat (transpose dgeq @ transpose dg))\<rparr>)
            else Inl ValueError)
      else Inr raw)"

definition raw_derivatives ::
  "('a, 'y) env \<Rightarrow> 'a om \<Rightarrow> ppopt \<Rightarrow> results \<Rightarrow> raw \<Rightarrow> error + raw" where
  "raw_derivatives env om ppopt r raw =
     (if RETURN_RAW_DER ppopt then
        ebind (move_legacy r raw) (\<lambda>raw1.
        ebind (compute_g_dg env om ppopt r raw1) (\<lambda>raw2.
          (let (f, df, d2f) = opf_costfcn env (res_x r) om
           in Inr (raw2\<lparr>raw_df := Some df, raw_d2f := Some d2f\<rparr>))))
      else Inr raw)"

text \<open>Lines 136 to 138.\<close>

definition del_legacy :: "results \<Rightarrow> error + results" where
  "del_legacy r =
     (case res_dg r of
        None \<Rightarrow> Inr r
      | Some d \<Rightarrow>
          (case res_g r of
             None \<Rightarrow> Inl (KeyError ''g'')
           | Some g \<Rightarrow> Inr (r\<lparr>res_dg := None, res_g := None\<rparr>)))"

text \<open>
  Lines 141 to 144. \<^verbatim>\<open>v * pi / 180\<close> is \<^verbatim>\<open>(v * pi) / 180\<close>: each entry is multiplied by
  numpy's \<^verbatim>\<open>pi\<close> and the product divided by 180, both in float64.
\<close>

definition to_degrees :: "real list \<Rightarrow> real list" where
  "to_degrees v = map (\<lambda>m. fl (fl (m * pi64) / 180)) v"

text \<open>
  Dividing back, as the specification words the reverse of the scale: a branch entry
  times 180, divided by \<^verbatim>\<open>pi\<close>, in float64.
\<close>

definition spec_divide_back :: "real \<Rightarrow> real" where
  "spec_divide_back c = fl (fl (c * 180) / pi64)"

definition ang_multipliers ::
  "('a, 'y) env \<Rightarrow> 'a om \<Rightarrow> idx \<Rightarrow> results \<Rightarrow> error + results" where
  "ang_multipliers env om ll r =
     ebind (lookup (idx_N ll) ''ang'') (\<lambda>n.
       if n > 0 then
         ebind (lookup (idx_i1 ll) ''ang'') (\<lambda>a.
         ebind (lookup (idx_iN ll) ''ang'') (\<lambda>b.
         ebind (set_rows_col (res_branch r) (userdata_iang om) (MU_ANGMIN env)
                  (to_degrees (py_slice (mu_lin_l (res_mu r)) a b))) (\<lambda>br1.
         ebind (set_rows_col br1 (userdata_iang om) (MU_ANGMAX env)
                  (to_degrees (py_slice (mu_lin_u (res_mu r)) a b))) (\<lambda>br2.
         Inr (r\<lparr>res_branch := br2\<rparr>)))))
       else Inr r)"

text \<open>Lines 102 to 151: the success branch and the failure branch.\<close>

definition corrector ::
  "('a, 'y) env \<Rightarrow> 'a om \<Rightarrow> ppopt \<Rightarrow> bool \<Rightarrow> idx \<Rightarrow> results \<Rightarrow> bool \<Rightarrow> raw
     \<Rightarrow> error + results \<times> raw" where
  "corrector env om ppopt dc ll r success raw =
     (if success then
        ebind (if \<not> dc then
                 ebind (copy_vg env r) (\<lambda>r1.
                 ebind (pq_multipliers env om ll r1) (\<lambda>r2.
                 ebind (raw_derivatives env om ppopt r2 raw) (\<lambda>raw1.
                 Inr (r2, raw1))))
               else Inr (r, raw)) (\<lambda>(r3, raw3).
        ebind (del_legacy r3) (\<lambda>r4.
        ebind (ang_multipliers env om ll r4) (\<lambda>r5.
        Inr (r5, raw3))))
      else if \<not> dc \<and> RETURN_RAW_DER ppopt then
        Inr (r, raw\<lparr>raw_dg := Some (Vec []), raw_g := Some (Vec []),
                     raw_df := Some (Vec []), raw_d2f := Some (Vec [])\<rparr>)
      else Inr (r, raw))"

subsection \<open>Result expander (lines 153 to 187)\<close>

text \<open>
  Each loop writes into one sub-mapping of \<^verbatim>\<open>results\<close> and reads vectors that no loop
  changes, so a loop is a recursion over the names that carries its sub-mapping
  (\<open>None\<close> while the key is absent). \<^verbatim>\<open>if om.getN(space, name):\<close> holds for every
  nonzero width.
\<close>

definition empty_var :: var_res where
  "empty_var = \<lparr>var_val = Map.empty, var_mu_l = Map.empty, var_mu_u = Map.empty\<rparr>"

definition empty_con :: con_res where
  "empty_con = \<lparr>con_mu_l = Map.empty, con_mu_u = Map.empty\<rparr>"

definition sub_mapping :: "string \<Rightarrow> 'v option \<Rightarrow> error + 'v" where
  \<comment> \<open>\<^verbatim>\<open>results[key]\<close>\<close>
  "sub_mapping key d = (case d of None \<Rightarrow> Inl (KeyError key) | Some v \<Rightarrow> Inr v)"

fun assign_var ::
  "(string \<Rightarrow> int) \<Rightarrow> idx \<Rightarrow> real list \<Rightarrow> real list \<Rightarrow> real list \<Rightarrow> string list
     \<Rightarrow> var_res option \<Rightarrow> error + var_res option" where
  "assign_var N vv x ml mu [] d = Inr d"
| "assign_var N vv x ml mu (name # names) d =
     (if N name \<noteq> 0 then
        ebind (lookup (idx_i1 vv) name) (\<lambda>a.
        ebind (lookup (idx_iN vv) name) (\<lambda>b.
        ebind (take_idx x (arange a b)) (\<lambda>val.
        ebind (sub_mapping ''var'' d) (\<lambda>v.
        ebind (take_idx ml (arange a b)) (\<lambda>l.
        ebind (take_idx mu (arange a b)) (\<lambda>u.
        assign_var N vv x ml mu names
          (Some \<lparr>var_val = (var_val v)(name \<mapsto> val),
                  var_mu_l = (var_mu_l v)(name \<mapsto> l),
                  var_mu_u = (var_mu_u v)(name \<mapsto> u)\<rparr>)))))))
      else assign_var N vv x ml mu names d)"

fun assign_con ::
  "string \<Rightarrow> (string \<Rightarrow> int) \<Rightarrow> idx \<Rightarrow> real list \<Rightarrow> real list \<Rightarrow> string list
     \<Rightarrow> con_res option \<Rightarrow> error + con_res option" where
  "assign_con key N ii ml mu [] d = Inr d"
| "assign_con key N ii ml mu (name # names) d =
     (if N name \<noteq> 0 then
        ebind (lookup (idx_i1 ii) name) (\<lambda>a.
        ebind (lookup (idx_iN ii) name) (\<lambda>b.
        ebind (take_idx ml (arange a b)) (\<lambda>l.
        ebind (sub_mapping key d) (\<lambda>v.
        ebind (take_idx mu (arange a b)) (\<lambda>u.
        assign_con key N ii ml mu names
          (Some \<lparr>con_mu_l = (con_mu_l v)(name \<mapsto> l),
                  con_mu_u = (con_mu_u v)(name \<mapsto> u)\<rparr>))))))
      else assign_con key N ii ml mu names d)"

fun assign_cost ::
  "(string \<Rightarrow> int) \<Rightarrow> (string \<Rightarrow> real) \<Rightarrow> string list
     \<Rightarrow> (string \<rightharpoonup> real) option \<Rightarrow> error + (string \<rightharpoonup> real) option" where
  "assign_cost N cost [] d = Inr d"
| "assign_cost N cost (name # names) d =
     (if N name \<noteq> 0 then
        ebind (sub_mapping ''cost'' d) (\<lambda>v.
        assign_cost N cost names (Some (v(name \<mapsto> cost name))))
      else assign_cost N cost names d)"

definition expander ::
  "'a om \<Rightarrow> bool \<Rightarrow> idx \<Rightarrow> idx \<Rightarrow> idx \<Rightarrow> results \<Rightarrow> error + results" where
  "expander om dc vv ll nn r =
     ebind (assign_var (getN om ''var'') vv (res_x r)
              (mu_var_l (res_mu r)) (mu_var_u (res_mu r)) (var_order om)
              (if var_order om \<noteq> [] then Some empty_var else res_var r)) (\<lambda>v.
     ebind (assign_con ''lin'' (getN om ''lin'') ll
              (mu_lin_l (res_mu r)) (mu_lin_u (res_mu r)) (lin_order om)
              (if lin_order om \<noteq> [] then Some empty_con else res_lin r)) (\<lambda>l.
     ebind (if \<not> dc then
              assign_con ''nln'' (getN om ''nln'') nn
                (mu_nln_l (res_mu r)) (mu_nln_u (res_mu r)) (nln_order om)
                (if nln_order om \<noteq> [] then Some empty_con else res_nln r)
            else Inr (res_nln r)) (\<lambda>n.
     ebind (assign_cost (getN om ''cost'') (compute_cost om (res_x r)) (cost_order om)
              (if cost_order om \<noteq> [] then Some Map.empty else res_cost r)) (\<lambda>c.
     Inr (r\<lparr>res_var := v, res_lin := l, res_nln := n, res_cost := c\<rparr>)))))"

subsection \<open>PWL dimension patch (lines 189 to 203)\<close>

definition pwl_patch ::
  "'a om \<Rightarrow> bool \<Rightarrow> int \<Rightarrow> results \<Rightarrow> raw \<Rightarrow> error + results \<times> raw" where
  "pwl_patch om dc alg r raw =
     (let pwl1 = userdata_pwl1 om
      in if length pwl1 > 0 \<and> alg \<noteq> 545 \<and> alg \<noteq> 550 then
           (let (vv, ll, nn, cc) = get_idx om
            in ebind (lookup (idx_iN vv) (if dc then ''Pg'' else ''Qg'')) (\<lambda>nx.
               let y = replicate (length pwl1) 0
               in ebind (sub_mapping ''xr'' (raw_xr raw)) (\<lambda>xr.
                  Inr (r\<lparr>res_x := slice_to (res_x r) nx @ y @ slice_from (res_x r) nx\<rparr>,
                       raw\<lparr>raw_xr := Some (slice_to xr nx @ y @ slice_from xr nx)\<rparr>))))
         else Inr (r, raw))"

subsection \<open>The function\<close>

text \<open>
  Lines 99 to 187, entered with the three locals bound: the stamp, the corrector and the
  expander in turn; the first exception ends the call.
\<close>

definition assemble ::
  "('a, 'y) env \<Rightarrow> 'a om \<Rightarrow> ppopt \<Rightarrow> bool \<Rightarrow> int \<Rightarrow> results \<times> bool \<times> raw
     \<Rightarrow> error + results \<times> raw" where
  "assemble env om ppopt dc alg t =
     (case t of (r0, success, raw0) \<Rightarrow>
        (case get_idx om of (vv, ll, nn, cc) \<Rightarrow>
           ebind (stamp_alg alg raw0) (\<lambda>raw1.
           ebind (corrector env om ppopt dc ll r0 success raw1) (\<lambda>(r2, raw2).
           ebind (expander om dc vv ll nn r2) (\<lambda>r3.
           Inr (r3, raw2))))))"

text \<open>Lines 99 to 205: the above, then the patch and the \<^verbatim>\<open>return\<close>.\<close>

definition post ::
  "('a, 'y) env \<Rightarrow> 'a om \<Rightarrow> ppopt \<Rightarrow> bool \<Rightarrow> int \<Rightarrow> results \<times> bool \<times> raw
     \<Rightarrow> error + results \<times> bool \<times> raw" where
  "post env om ppopt dc alg t =
     ebind (assemble env om ppopt dc alg t) (\<lambda>(r3, raw3).
     ebind (pwl_patch om dc alg r3 raw3) (\<lambda>(r4, raw4).
     Inr (r4, fst (snd t), raw4)))"

text \<open>
  \<open>opf_execute env om ppopt\<close> is what the call leaves behind and how it ends: \<open>Inl e\<close>
  when it raises \<open>e\<close>, \<open>Inr (results, success, raw)\<close> when it returns. Line 99 is the
  first to read one of the three locals, \<^verbatim>\<open>raw\<close>; where the dispatcher bound none of
  them, reading it raises UnboundLocalError.
\<close>

definition opf_execute ::
  "('a, 'y) env \<Rightarrow> 'a om \<Rightarrow> ppopt \<Rightarrow> world \<times> (error + results \<times> bool \<times> raw)" where
  "opf_execute env om ppopt =
     (case dispatch env om ppopt of (w, alg, solved) \<Rightarrow>
        (w, case solved of
              Inl e \<Rightarrow> Inl e
            | Inr None \<Rightarrow> Inl (UnboundLocalError ''raw'')
            | Inr (Some t) \<Rightarrow> post env om (w_ppopt w) (PF_DC ppopt) alg t))"

definition returns ::
  "('a, 'y) env \<Rightarrow> 'a om \<Rightarrow> ppopt \<Rightarrow> results \<times> bool \<times> raw \<Rightarrow> bool" where
  "returns env om ppopt t = (snd (opf_execute env om ppopt) = Inr t)"

definition raises :: "('a, 'y) env \<Rightarrow> 'a om \<Rightarrow> ppopt \<Rightarrow> error \<Rightarrow> bool" where
  "raises env om ppopt e = (snd (opf_execute env om ppopt) = Inl e)"

text \<open>The four spaces of \<^verbatim>\<open>om.get_idx()\<close> by name.\<close>

definition idx_var :: "'a om \<Rightarrow> idx" where
  "idx_var om = fst (get_idx om)"

definition idx_lin :: "'a om \<Rightarrow> idx" where
  "idx_lin om = fst (snd (get_idx om))"

definition idx_nln :: "'a om \<Rightarrow> idx" where
  "idx_nln om = fst (snd (snd (get_idx om)))"

definition idx_cost :: "'a om \<Rightarrow> idx" where
  "idx_cost om = snd (snd (snd (get_idx om)))"

text \<open>
  \<open>solved env om ppopt alg t\<close>: the dispatcher resolved the code to \<open>alg\<close> and the backend
  it chose returned the triple \<open>t\<close>.
\<close>

definition solved ::
  "('a, 'y) env \<Rightarrow> 'a om \<Rightarrow> ppopt \<Rightarrow> int \<Rightarrow> results \<times> bool \<times> raw \<Rightarrow> bool" where
  "solved env om ppopt alg t =
     (fst (snd (dispatch env om ppopt)) = alg \<and> snd (snd (dispatch env om ppopt)) = Inr (Some t))"

text \<open>What a returning call returns.\<close>

definition returned ::
  "('a, 'y) env \<Rightarrow> 'a om \<Rightarrow> ppopt \<Rightarrow> results \<times> bool \<times> raw" where
  "returned env om ppopt = projr (snd (opf_execute env om ppopt))"

text \<open>
  \<^verbatim>\<open>r_[v[:nx], zeros(k), v[nx:]]\<close> for a split point inside the vector, as the
  specification words it: \<open>k\<close> zeros after the first \<open>nx\<close> entries.
\<close>

definition spec_insert_zeros :: "int \<Rightarrow> nat \<Rightarrow> real list \<Rightarrow> real list" where
  "spec_insert_zeros nx k v = take (nat nx) v @ replicate k 0 @ drop (nat nx) v"

text \<open>
  Entry \<open>k\<close> of a value assigned to \<open>n\<close> addressed rows: its own entry \<open>k\<close> when it has
  one entry per row, its single entry when it is broadcast.
\<close>

definition broadcast_nth :: "real list \<Rightarrow> nat \<Rightarrow> nat \<Rightarrow> real" where
  "broadcast_nth v n k = (if length v = n then v ! k else v ! 0)"

text \<open>
  \<open>block_of ii name v val\<close>: \<open>val\<close> is the block of \<open>name\<close> in the flat vector \<open>v\<close>. It
  is what \<^verbatim>\<open>v[arange(i1[name], iN[name])]\<close> evaluates to, it has \<open>iN - i1\<close> entries (none
  when \<open>iN \<le> i1\<close>), and for \<open>0 \<le> i1 \<le> iN\<close> it is the slice \<^verbatim>\<open>v[i1:iN]\<close>.
\<close>

definition block_of :: "idx \<Rightarrow> string \<Rightarrow> real list \<Rightarrow> real list \<Rightarrow> bool" where
  "block_of ii name v val =
     (case idx_i1 ii name of
        None \<Rightarrow> False
      | Some a \<Rightarrow>
          (case idx_iN ii name of
             None \<Rightarrow> False
           | Some b \<Rightarrow>
               take_idx v (arange a b) = Inr val
             \<and> length val = nat (b - a)
             \<and> (0 \<le> a \<and> a \<le> b \<longrightarrow> val = py_slice v a b)))"

subsection \<open>The stored entries, read as the specification names them\<close>

text \<open>
  An entry of a structured sub-mapping is a slice of a flat vector or a single number.
  \<open>stored r space name\<close> is \<^verbatim>\<open>results[space][name]\<close>, for the variable space the value
  entry \<^verbatim>\<open>results['var']['val'][name]\<close> and for a constraint space the lower multiplier
  entry; \<open>None\<close> when the sub-mapping or the key is absent.
\<close>

datatype entry = Slice "real list" | Scalar real

definition stored :: "results \<Rightarrow> string \<Rightarrow> string \<Rightarrow> entry option" where
  "stored r space name =
     (if space = ''var'' then
        (case res_var r of None \<Rightarrow> None | Some v \<Rightarrow> map_option Slice (var_val v name))
      else if space = ''lin'' then
        (case res_lin r of None \<Rightarrow> None | Some v \<Rightarrow> map_option Slice (con_mu_l v name))
      else if space = ''nln'' then
        (case res_nln r of None \<Rightarrow> None | Some v \<Rightarrow> map_option Slice (con_mu_l v name))
      else if space = ''cost'' then
        (case res_cost r of None \<Rightarrow> None | Some v \<Rightarrow> map_option Scalar (v name))
      else None)"

text \<open>The specification's reading of an entry: a slice with \<open>last - first\<close> elements.\<close>

definition spec_slice_of_width :: "entry option \<Rightarrow> int \<Rightarrow> bool" where
  "spec_slice_of_width e w =
     (case e of Some (Slice s) \<Rightarrow> int (length s) = w | Some (Scalar c) \<Rightarrow> False | None \<Rightarrow> False)"

subsection \<open>A small case\<close>

text \<open>
  Two buses, two generators, two branches; four variables in the blocks \<open>Va\<close>, \<open>Pg\<close>,
  \<open>Qg\<close> and an empty block \<open>y\<close>; an angle-limit block of width two and two empty
  capability-curve blocks; one nonlinear block; one user cost block of width two.
\<close>

definition ex_bus :: matrix where
  "ex_bus = \<lparr>ncols = 3, rows = [[0, 2, 0], [1, 3, 0]]\<rparr>"

definition ex_gen :: matrix where
  "ex_gen = \<lparr>ncols = 3, rows = [[1, 10, 1], [0, 20, 1]]\<rparr>"

definition ex_branch :: matrix where
  "ex_branch = \<lparr>ncols = 3, rows = [[7, 0, 0], [8, 0, 0]]\<rparr>"

definition ex_mu :: mu where
  "ex_mu = \<lparr>mu_var_l = [0, 0, 0, 0], mu_var_u = [1, 1, 1, 1],
             mu_lin_l = [5, 6], mu_lin_u = [7, 8], mu_nln_l = [9], mu_nln_u = [10]\<rparr>"

definition ex_results :: "arr option \<Rightarrow> results" where
  "ex_results legacy =
     \<lparr>res_baseMVA = 100, res_bus = ex_bus, res_gen = ex_gen, res_branch = ex_branch,
      res_x = [1, 2, 3, 4], res_mu = ex_mu, res_dg = legacy, res_g = legacy,
      res_var = None, res_lin = None, res_nln = None, res_cost = None\<rparr>"

definition ex_raw :: raw where
  "ex_raw =
     \<lparr>raw_output = Some \<lparr>out_alg = None, out_rest = [''message'' \<mapsto> PStr ''ok'']\<rparr>,
      raw_xr = Some [1, 2, 3, 4], raw_g = None, raw_dg = None, raw_df = None,
      raw_d2f = None, raw_rest = [''info'' \<mapsto> PInt 1]\<rparr>"

definition ex_vv :: idx where
  "ex_vv = \<lparr>idx_i1 = [''Va'' \<mapsto> 0, ''Pg'' \<mapsto> 2, ''Qg'' \<mapsto> 3, ''y'' \<mapsto> 4],
             idx_iN = [''Va'' \<mapsto> 2, ''Pg'' \<mapsto> 3, ''Qg'' \<mapsto> 4, ''y'' \<mapsto> 4],
             idx_N = [''Va'' \<mapsto> 2, ''Pg'' \<mapsto> 1, ''Qg'' \<mapsto> 1, ''y'' \<mapsto> 0]\<rparr>"

definition ex_ll :: idx where
  "ex_ll = \<lparr>idx_i1 = [''ang'' \<mapsto> 0, ''PQh'' \<mapsto> 2, ''PQl'' \<mapsto> 2],
             idx_iN = [''ang'' \<mapsto> 2, ''PQh'' \<mapsto> 2, ''PQl'' \<mapsto> 2],
             idx_N = [''ang'' \<mapsto> 2, ''PQh'' \<mapsto> 0, ''PQl'' \<mapsto> 0]\<rparr>"

definition ex_nn :: idx where
  "ex_nn = \<lparr>idx_i1 = [''Pmis'' \<mapsto> 0], idx_iN = [''Pmis'' \<mapsto> 1], idx_N = [''Pmis'' \<mapsto> 1]\<rparr>"

definition ex_cc :: idx where
  "ex_cc = \<lparr>idx_i1 = [''usr'' \<mapsto> 0], idx_iN = [''usr'' \<mapsto> 2], idx_N = [''usr'' \<mapsto> 2]\<rparr>"

definition ex_getN :: "string \<Rightarrow> string \<Rightarrow> int" where
  "ex_getN space name =
     (let t = (if space = ''var'' then ex_vv else if space = ''lin'' then ex_ll
               else if space = ''nln'' then ex_nn else ex_cc)
      in case idx_N t name of None \<Rightarrow> 0 | Some n \<Rightarrow> n)"

definition ex_om :: "int list \<Rightarrow> unit om" where
  "ex_om pwl1 =
     \<lparr>var_order = [''Va'', ''Pg'', ''Qg'', ''y''], lin_order = [''ang'', ''PQh'', ''PQl''],
      nln_order = [''Pmis''], cost_order = [''usr''],
      get_idx = (ex_vv, ex_ll, ex_nn, ex_cc), getN = ex_getN,
      userdata_Apqdata = (), userdata_iang = [1, 0], userdata_pwl1 = pwl1,
      compute_cost = (\<lambda>x name. sum_list x),
      get_ppc = \<lparr>ppc_baseMVA = 100, ppc_bus = ex_bus, ppc_branch = ex_branch\<rparr>\<rparr>"

definition ex_env :: "bool \<Rightarrow> arr option \<Rightarrow> (unit, unit) env" where
  "ex_env success legacy =
     \<lparr>ppver_Version = ''4.0'', ppver_Date = ''2011'',
      dcopf_solver = (\<lambda>om ppopt. Inr (ex_results legacy, success, ex_raw)),
      pipsopf_solver = (\<lambda>om ppopt. Inr (ex_results legacy, success, ex_raw)),
      ipoptopf_solver = (\<lambda>om ppopt. Inr (ex_results legacy, success, ex_raw)),
      pyipopt_importable = False,
      update_mupq = (\<lambda>baseMVA gen mu_PQh mu_PQl data. gen),
      makeYbus = (\<lambda>baseMVA bus branch. ()),
      opf_consfcn = (\<lambda>x om Y ppopt. ([], [], [], [])),
      opf_costfcn = (\<lambda>x om. (0, Vec [], Mat [])),
      VM = 1, GEN_BUS = 0, VG = 2, MU_ANGMIN = 1, MU_ANGMAX = 2\<rparr>"

text \<open>
  The same case with other backend output: a \<^verbatim>\<open>raw\<close> without an \<^verbatim>\<open>output\<close> entry, a
  \<^verbatim>\<open>raw\<close> whose backend reports its code as an integer, and lower angle multipliers that
  start with the float64 number \<^verbatim>\<open>123.456\<close>.
\<close>

definition ex_env_with :: "results \<Rightarrow> raw \<Rightarrow> (unit, unit) env" where
  "ex_env_with res raw =
     (ex_env True None)
       \<lparr>dcopf_solver := (\<lambda>om ppopt. Inr (res, True, raw)),
        pipsopf_solver := (\<lambda>om ppopt. Inr (res, True, raw)),
        ipoptopf_solver := (\<lambda>om ppopt. Inr (res, True, raw))\<rparr>"

definition ex_raw_no_output :: raw where
  "ex_raw_no_output = ex_raw\<lparr>raw_output := None\<rparr>"

definition ex_raw_int_alg :: raw where
  "ex_raw_int_alg =
     ex_raw\<lparr>raw_output := Some \<lparr>out_alg = Some (PInt 560), out_rest = Map.empty\<rparr>\<rparr>"

definition ex_results_ang :: results where
  "ex_results_ang =
     (ex_results None)
       \<lparr>res_mu := ex_mu\<lparr>mu_lin_l := [8687443681197687 / 70368744177664, 6]\<rparr>\<rparr>"

definition ex_ppopt :: "bool \<Rightarrow> int \<Rightarrow> bool \<Rightarrow> ppopt" where
  "ex_ppopt dc alg der =
     \<lparr>PF_DC = dc, OPF_ALG = alg, VERBOSE = 0, RETURN_RAW_DER = der, OPF_ALG_POLY = None\<rparr>"

subsection \<open>Evaluation and sequencing lemmas\<close>

lemmas ex_defs = ex_env_def ex_om_def ex_ppopt_def ex_results_def ex_raw_def ex_bus_def ex_gen_def
  ex_branch_def ex_mu_def ex_vv_def ex_ll_def ex_nn_def ex_cc_def ex_getN_def

lemmas op_defs = opf_execute_def dispatch_def run_ac_def post_def assemble_def stamp_alg_def
  corrector_def copy_vg_def pq_multipliers_def raw_derivatives_def move_legacy_def compute_g_dg_def
  del_legacy_def ang_multipliers_def to_degrees_def expander_def pwl_patch_def
  ebind_def lookup_def sub_mapping_def take_idx_def py_index_def arange_def py_slice_def
  slice_bound_def slice_to_def slice_from_def vsub_def astype_int_def get_col_def get_rows_col_def
  set_rows_col_def set_col_def put_cells_def py_len_def empty_var_def empty_con_def empty_raw_def

lemma ebind_Inl [simp]: "ebind (Inl e) f = Inl e"
  by (simp add: ebind_def)

lemma ebind_Inr [simp]: "ebind (Inr v) f = f v"
  by (simp add: ebind_def)

lemma ebind_eq_Inr: "ebind m f = Inr y \<longleftrightarrow> (\<exists>v. m = Inr v \<and> f v = Inr y)"
  by (cases m) simp_all

lemma update_deprecated_id: "update_deprecated alg = alg"
  by (auto simp: update_deprecated_def)

subsection \<open>Dispatch\<close>

text \<open>
  C2. The claim is that a requested code of 100 or 200 resolves to 300, 120 or 220 to 320,
  140 or 240 to 340, and 160 or 260 to 360. The function leaves each of the eight codes as
  it is: none of the four tests of lines 76 to 82 can hold, so for a request of 100 the
  resolved code, and the code recorded in the options, is 100.
\<close>

theorem deprecated_codes_not_remapped:
  "map update_deprecated [100, 200, 120, 220, 140, 240, 160, 260]
     = [100, 200, 120, 220, 140, 240, 160, 260]
   \<and> fst (snd (dispatch (ex_env True None) (ex_om []) (ex_ppopt False 100 False))) = 100
   \<and> OPF_ALG_POLY (w_ppopt (fst (dispatch (ex_env True None) (ex_om []) (ex_ppopt False 100 False))))
       = Some 100"
  by (simp add: update_deprecated_def dispatch_def run_ac_def ex_env_def ex_ppopt_def)

text \<open>
  C1. The claim is that an AC call whose code selects IPOPT while \<^verbatim>\<open>pyipopt\<close> cannot be
  imported, or whose code is not recognised, writes a diagnostic and returns a failure
  without raising. The function writes the diagnostic to stderr, naming the code, and
  then raises UnboundLocalError at line 99, since no branch bound \<^verbatim>\<open>raw\<close>.
\<close>

theorem dispatch_failure_raises:
  assumes "\<not> PF_DC ppopt"
    and "alg = (if OPF_ALG ppopt = 0 then 560 else OPF_ALG ppopt)"
    and "alg = 580 \<and> \<not> pyipopt_importable env \<or> alg \<notin> {560, 565, 580}"
  shows "snd (opf_execute env om ppopt) = Inl (UnboundLocalError ''raw'')
       \<and> w_stderr (fst (opf_execute env om ppopt))
           = [if alg = 580 then msg_requires_ipopt alg else msg_not_valid alg]"
  using assms
  by (auto simp: opf_execute_def dispatch_def run_ac_def update_deprecated_id Let_def
      split: sum.splits)

theorem dispatch_failure_raises_witness:
  "snd (opf_execute (ex_env True None) (ex_om []) (ex_ppopt False 580 False))
     = Inl (UnboundLocalError ''raw'')
   \<and> w_stderr (fst (opf_execute (ex_env True None) (ex_om []) (ex_ppopt False 580 False)))
     = [''opf_execute: OPF_ALG 580 requires IPOPT (see https://projects.coin-or.org/Ipopt/)'' @ newline]"
  using dispatch_failure_raises [of "ex_ppopt False 580 False" 580 "ex_env True None" "ex_om []"]
  by (simp add: ex_env_def ex_ppopt_def msg_requires_ipopt_def fmt_d_def dec_nat.simps digit_char_def)


subsection \<open>Decomposition of a returning call\<close>

lemma dispatch_ppopt:
  "RETURN_RAW_DER (w_ppopt (fst (dispatch env om ppopt))) = RETURN_RAW_DER ppopt"
  by (simp add: dispatch_def Let_def split: prod.splits)

lemma solved_ac_alg:
  "solved env om ppopt alg t \<Longrightarrow> \<not> PF_DC ppopt \<Longrightarrow> alg = 560 \<or> alg = 565 \<or> alg = 580"
  by (auto simp: solved_def dispatch_def run_ac_def Let_def split: prod.splits if_splits sum.splits)

lemma returns_post:
  assumes "solved env om ppopt alg t0" and "returns env om ppopt t"
  shows "post env om (w_ppopt (fst (dispatch env om ppopt))) (PF_DC ppopt) alg t0 = Inr t"
  using assms by (auto simp: solved_def returns_def opf_execute_def split: prod.splits)

lemma post_Inr:
  "post env om po dc alg (r0, s0, raw0) = Inr (r, s, raw) \<longleftrightarrow>
     s = s0 \<and> (\<exists>r3 raw3. assemble env om po dc alg (r0, s0, raw0) = Inr (r3, raw3)
                 \<and> pwl_patch om dc alg r3 raw3 = Inr (r, raw))"
  by (auto simp: post_def ebind_eq_Inr)

lemma assemble_Inr:
  "assemble env om po dc alg (r0, s0, raw0) = Inr (r3, raw2) \<longleftrightarrow>
     (\<exists>raw1 r2. stamp_alg alg raw0 = Inr raw1
        \<and> corrector env om po dc (idx_lin om) r0 s0 raw1 = Inr (r2, raw2)
        \<and> expander om dc (idx_var om) (idx_lin om) (idx_nln om) r2 = Inr r3)"
  by (auto simp: assemble_def ebind_eq_Inr idx_var_def idx_lin_def idx_nln_def split: prod.splits)

subsection \<open>What each step leaves alone\<close>

lemma copy_vg_frame: "copy_vg env r = Inr r' \<Longrightarrow> \<exists>g. r' = r\<lparr>res_gen := g\<rparr>"
  by (auto simp: copy_vg_def ebind_eq_Inr)

lemma pq_multipliers_frame: "pq_multipliers env om ll r = Inr r' \<Longrightarrow> \<exists>g. r' = r\<lparr>res_gen := g\<rparr>"
  by (auto simp: pq_multipliers_def ebind_eq_Inr split: if_splits intro: exI [of _ "res_gen r"])

lemma del_legacy_frame:
  "del_legacy r = Inr r' \<Longrightarrow>
     r' = (if res_dg r = None then r else r\<lparr>res_dg := None, res_g := None\<rparr>)"
  by (auto simp: del_legacy_def split: option.splits)

lemma ang_multipliers_frame:
  "ang_multipliers env om ll r = Inr r' \<Longrightarrow> \<exists>b. r' = r\<lparr>res_branch := b\<rparr>"
  by (auto simp: ang_multipliers_def ebind_eq_Inr split: if_splits intro: exI [of _ "res_branch r"])

lemma expander_frame:
  "expander om dc vv ll nn r = Inr r' \<Longrightarrow>
     \<exists>v l n c. r' = r\<lparr>res_var := v, res_lin := l, res_nln := n, res_cost := c\<rparr>"
  by (auto simp: expander_def ebind_eq_Inr)

lemma pwl_patch_frame:
  "pwl_patch om dc alg r raw = Inr (r', raw') \<Longrightarrow>
     (\<exists>x. r' = r\<lparr>res_x := x\<rparr>) \<and> (\<exists>xr. raw' = raw\<lparr>raw_xr := xr\<rparr>)"
  by (auto simp: pwl_patch_def Let_def ebind_eq_Inr split: if_splits prod.splits
      intro: exI [of _ "res_x r"] exI [of _ "raw_xr raw"])

lemma stamp_alg_frame:
  "stamp_alg alg raw = Inr raw' \<Longrightarrow> \<exists>out. raw' = raw\<lparr>raw_output := Some out\<rparr>"
  by (auto simp: stamp_alg_def ebind_eq_Inr split: option.splits if_splits
      intro: exI [of _ "the (raw_output raw)"])

lemma corrector_failure:
  "corrector env om po dc ll r False raw = Inr (r', raw') \<Longrightarrow>
     r' = r \<and> raw' = (if \<not> dc \<and> RETURN_RAW_DER po
                      then raw\<lparr>raw_dg := Some (Vec []), raw_g := Some (Vec []),
                               raw_df := Some (Vec []), raw_d2f := Some (Vec [])\<rparr>
                      else raw)"
  by (auto simp: corrector_def split: if_splits)

subsection \<open>Failed solves\<close>

text \<open>
  C9. When the backend reports failure and the call returns, the returned gen, bus and
  branch tables are the backend's, and for an AC problem with \<^verbatim>\<open>RETURN_RAW_DER\<close> set
  the keys \<^verbatim>\<open>g\<close>, \<^verbatim>\<open>dg\<close>, \<^verbatim>\<open>df\<close> and \<^verbatim>\<open>d2f\<close> of the returned \<^verbatim>\<open>raw\<close> hold empty
  arrays.
\<close>

theorem failed_solve_untouched:
  assumes "solved env om ppopt alg (r0, False, raw0)"
    and "returns env om ppopt (r, s, raw)"
  shows "\<not> s \<and> res_gen r = res_gen r0 \<and> res_bus r = res_bus r0 \<and> res_branch r = res_branch r0
       \<and> (\<not> PF_DC ppopt \<and> RETURN_RAW_DER ppopt \<longrightarrow>
            raw_g raw = Some (Vec []) \<and> raw_dg raw = Some (Vec [])
          \<and> raw_df raw = Some (Vec []) \<and> raw_d2f raw = Some (Vec []))"
proof -
  let ?po = "w_ppopt (fst (dispatch env om ppopt))"
  from returns_post [OF assms]
  have p: "post env om ?po (PF_DC ppopt) alg (r0, False, raw0) = Inr (r, s, raw)" .
  then obtain r3 raw3 raw1 r2 where s: "s = False"
    and st: "stamp_alg alg raw0 = Inr raw1"
    and co: "corrector env om ?po (PF_DC ppopt) (idx_lin om) r0 False raw1 = Inr (r2, raw3)"
    and ex: "expander om (PF_DC ppopt) (idx_var om) (idx_lin om) (idx_nln om) r2 = Inr r3"
    and pa: "pwl_patch om (PF_DC ppopt) alg r3 raw3 = Inr (r, raw)"
    by (auto simp: post_Inr assemble_Inr)
  from corrector_failure [OF co] have r2: "r2 = r0"
    and raw3: "raw3 = (if \<not> PF_DC ppopt \<and> RETURN_RAW_DER ppopt
                      then raw1\<lparr>raw_dg := Some (Vec []), raw_g := Some (Vec []),
                               raw_df := Some (Vec []), raw_d2f := Some (Vec [])\<rparr>
                      else raw1)"
    by (simp_all add: dispatch_ppopt)
  from expander_frame [OF ex] r2 obtain v l n c
    where r3: "r3 = r0\<lparr>res_var := v, res_lin := l, res_nln := n, res_cost := c\<rparr>" by auto
  from pwl_patch_frame [OF pa] obtain x xr
    where r: "r = r3\<lparr>res_x := x\<rparr>" and raw: "raw = raw3\<lparr>raw_xr := xr\<rparr>" by auto
  show ?thesis
    by (simp add: s r r3 raw raw3)
qed


lemma ex_failed_returns:
  "snd (opf_execute (ex_env False None) (ex_om []) (ex_ppopt False 0 True))
     = Inr (returned (ex_env False None) (ex_om []) (ex_ppopt False 0 True))"
  by (simp add: returned_def op_defs ex_defs update_deprecated_id upt_rec)

theorem failed_solve_untouched_witness:
  "solved (ex_env False None) (ex_om []) (ex_ppopt False 0 True) 560 (ex_results None, False, ex_raw)
   \<and> returns (ex_env False None) (ex_om []) (ex_ppopt False 0 True)
        (returned (ex_env False None) (ex_om []) (ex_ppopt False 0 True))
   \<and> res_gen (fst (returned (ex_env False None) (ex_om []) (ex_ppopt False 0 True))) = ex_gen
   \<and> res_branch (fst (returned (ex_env False None) (ex_om []) (ex_ppopt False 0 True))) = ex_branch
   \<and> raw_dg (snd (snd (returned (ex_env False None) (ex_om []) (ex_ppopt False 0 True))))
        = Some (Vec [])"
proof -
  let ?T = "returned (ex_env False None) (ex_om []) (ex_ppopt False 0 True)"
  have h1: "solved (ex_env False None) (ex_om []) (ex_ppopt False 0 True) 560
              (ex_results None, False, ex_raw)"
    by (simp add: solved_def dispatch_def run_ac_def update_deprecated_id ex_env_def ex_ppopt_def)
  have h2: "returns (ex_env False None) (ex_om []) (ex_ppopt False 0 True) ?T"
    using ex_failed_returns by (simp add: returns_def)
  then have h3: "returns (ex_env False None) (ex_om []) (ex_ppopt False 0 True)
                   (fst ?T, fst (snd ?T), snd (snd ?T))"
    by simp
  have p: "\<not> PF_DC (ex_ppopt False 0 True) \<and> RETURN_RAW_DER (ex_ppopt False 0 True)"
    by (simp add: ex_ppopt_def)
  from failed_solve_untouched [OF h1 h3] h1 h2 p show ?thesis
    by (simp add: ex_results_def)
qed

subsection \<open>The raw record through the corrector\<close>

lemma stamp_alg_Inr:
  assumes "stamp_alg alg raw = Inr raw'"
  shows "\<exists>out0. raw_output raw = Some out0
           \<and> raw' = raw\<lparr>raw_output := Some (out0\<lparr>out_alg :=
                 Some (case out_alg out0 of None \<Rightarrow> PInt alg
                       | Some v \<Rightarrow> if py_len v = Inr 0 then PInt alg else v)\<rparr>)\<rparr>"
  using assms
  by (auto simp: stamp_alg_def ebind_eq_Inr split: option.splits if_splits)

lemma corrector_success_ac:
  assumes "corrector env om po False ll r True raw = Inr (r', raw')"
  shows "\<exists>r1 r2 r4. copy_vg env r = Inr r1 \<and> pq_multipliers env om ll r1 = Inr r2
           \<and> raw_derivatives env om po r2 raw = Inr raw'
           \<and> del_legacy r2 = Inr r4 \<and> ang_multipliers env om ll r4 = Inr r'"
  using assms by (auto simp: corrector_def ebind_eq_Inr)

lemma corrector_success_dc:
  assumes "corrector env om po True ll r True raw = Inr (r', raw')"
  shows "raw' = raw \<and> (\<exists>r4. del_legacy r = Inr r4 \<and> ang_multipliers env om ll r4 = Inr r')"
  using assms by (auto simp: corrector_def ebind_eq_Inr)

lemma raw_derivatives_legacy:
  assumes "raw_derivatives env om po r raw = Inr raw'" and "RETURN_RAW_DER po"
    and "res_dg r = Some d"
  shows "res_g r \<noteq> None
       \<and> raw' = empty_raw\<lparr>raw_dg := Some d, raw_g := res_g r,
                          raw_df := Some (fst (snd (opf_costfcn env (res_x r) om))),
                          raw_d2f := Some (snd (snd (opf_costfcn env (res_x r) om)))\<rparr>"
  using assms
  by (auto simp: raw_derivatives_def move_legacy_def compute_g_dg_def ebind_eq_Inr empty_raw_def
      split: option.splits prod.splits)

lemma compute_g_dg_keeps:
  assumes "compute_g_dg env om po r raw = Inr raw'"
  shows "raw_output raw' = raw_output raw \<and> raw_xr raw' = raw_xr raw
       \<and> raw_rest raw' = raw_rest raw"
  using assms by (auto simp: compute_g_dg_def Let_def split: if_splits prod.splits)

lemma raw_derivatives_keeps:
  assumes "raw_derivatives env om po r raw = Inr raw'"
    and "\<not> (RETURN_RAW_DER po \<and> res_dg r \<noteq> None)"
  shows "raw_output raw' = raw_output raw \<and> raw_xr raw' = raw_xr raw
       \<and> raw_rest raw' = raw_rest raw"
proof (cases "RETURN_RAW_DER po")
  case False
  with assms show ?thesis by (simp add: raw_derivatives_def)
next
  case True
  with assms have dg: "res_dg r = None" by simp
  from assms True dg obtain raw2 where c: "compute_g_dg env om po r raw = Inr raw2"
    and r': "raw' = raw2\<lparr>raw_df := Some (fst (snd (opf_costfcn env (res_x r) om))),
                         raw_d2f := Some (snd (snd (opf_costfcn env (res_x r) om)))\<rparr>"
    by (auto simp: raw_derivatives_def move_legacy_def ebind_eq_Inr case_prod_beta)
  from compute_g_dg_keeps [OF c] r' show ?thesis by simp
qed


subsection \<open>PWL dimension patch\<close>

lemma slice_parts_length: "length (slice_to xs n) + length (slice_from xs n) = length xs"
  by (simp add: slice_to_def slice_from_def)

lemma slice_split_length:
  "length (slice_to xs n @ ys @ slice_from xs n) = length xs + length ys"
  using slice_parts_length [of xs n] by simp

lemma slice_split_inside:
  assumes "0 \<le> nx" and "nx \<le> int (length xs)"
  shows "slice_to xs nx @ replicate k 0 @ slice_from xs nx = spec_insert_zeros nx k xs"
proof -
  from assms have "nat nx \<le> length xs" by simp
  with assms show ?thesis
    by (simp add: slice_to_def slice_from_def slice_bound_def spec_insert_zeros_def min_def)
qed

lemma pwl_patch_fires:
  assumes "pwl_patch om dc alg r raw = Inr (r', raw')"
    and "userdata_pwl1 om \<noteq> []" and "alg \<noteq> 545" and "alg \<noteq> 550"
  shows "\<exists>nx xr. idx_iN (idx_var om) (if dc then ''Pg'' else ''Qg'') = Some nx
           \<and> raw_xr raw = Some xr
           \<and> r' = r\<lparr>res_x := slice_to (res_x r) nx @ replicate (length (userdata_pwl1 om)) 0
                                @ slice_from (res_x r) nx\<rparr>
           \<and> raw' = raw\<lparr>raw_xr := Some (slice_to xr nx @ replicate (length (userdata_pwl1 om)) 0
                                          @ slice_from xr nx)\<rparr>"
  using assms
  by (auto simp: pwl_patch_def Let_def ebind_eq_Inr idx_var_def lookup_def sub_mapping_def
      split: prod.splits option.splits)

lemma pwl_patch_empty: "userdata_pwl1 om = [] \<Longrightarrow> pwl_patch om dc alg r raw = Inr (r, raw)"
  by (simp add: pwl_patch_def)

lemma corrector_res_x:
  assumes "corrector env om po dc ll r s raw = Inr (r', raw')"
  shows "res_x r' = res_x r"
proof -
  consider (fail) "\<not> s" | (dc) "s" "dc" | (ac) "s" "\<not> dc" by blast
  then show ?thesis
  proof cases
    case fail
    with assms show ?thesis by (auto simp: corrector_def split: if_splits)
  next
    case dc
    with assms have "corrector env om po True ll r True raw = Inr (r', raw')" by simp
    from corrector_success_dc [OF this] obtain r4
      where "del_legacy r = Inr r4" and "ang_multipliers env om ll r4 = Inr r'" by auto
    then show ?thesis
      using del_legacy_frame [of r r4] ang_multipliers_frame [of env om ll r4 r'] by auto
  next
    case ac
    with assms have "corrector env om po False ll r True raw = Inr (r', raw')" by simp
    from corrector_success_ac [OF this] obtain r1 r2 r4
      where "copy_vg env r = Inr r1" and "pq_multipliers env om ll r1 = Inr r2"
        and "del_legacy r2 = Inr r4" and "ang_multipliers env om ll r4 = Inr r'" by auto
    then show ?thesis
      using copy_vg_frame [of env r r1] pq_multipliers_frame [of env om ll r1 r2]
        del_legacy_frame [of r2 r4] ang_multipliers_frame [of env om ll r4 r'] by auto
  qed
qed

lemma assemble_res_x:
  assumes "assemble env om po dc alg (r0, s0, raw0) = Inr (r3, raw3)"
  shows "res_x r3 = res_x r0"
proof -
  from assms obtain raw1 r2 where
    co: "corrector env om po dc (idx_lin om) r0 s0 raw1 = Inr (r2, raw3)"
    and ex: "expander om dc (idx_var om) (idx_lin om) (idx_nln om) r2 = Inr r3"
    by (auto simp: assemble_Inr)
  from expander_frame [OF ex] corrector_res_x [OF co] show ?thesis by auto
qed

text \<open>
  C6. When \<^verbatim>\<open>pwl1\<close> is empty and the call returns, the patch is a no-op: what the call
  returns is what lines 99 to 187 produced, the patch applied to it gives it back, and the
  structured solution vector is the backend's.
\<close>

theorem empty_pwl1_patch_noop:
  assumes "solved env om ppopt alg (r0, s0, raw0)"
    and "returns env om ppopt (r, s, raw)"
    and "userdata_pwl1 om = []"
  shows "assemble env om (w_ppopt (fst (dispatch env om ppopt))) (PF_DC ppopt) alg (r0, s0, raw0)
           = Inr (r, raw)
       \<and> pwl_patch om (PF_DC ppopt) alg r raw = Inr (r, raw)
       \<and> res_x r = res_x r0"
proof -
  let ?po = "w_ppopt (fst (dispatch env om ppopt))"
  from returns_post [OF assms(1,2)] obtain r3 raw3
    where a: "assemble env om ?po (PF_DC ppopt) alg (r0, s0, raw0) = Inr (r3, raw3)"
      and p: "pwl_patch om (PF_DC ppopt) alg r3 raw3 = Inr (r, raw)"
    by (auto simp: post_Inr)
  from p assms(3) have e: "r3 = r" "raw3 = raw" by (simp_all add: pwl_patch_empty)
  from a e assemble_res_x [OF a] show ?thesis
    by (simp add: pwl_patch_empty [OF assms(3)])
qed

text \<open>
  C7. When \<^verbatim>\<open>pwl1\<close> has \<open>k > 0\<close> entries, the resolved code is neither 545 nor 550 and
  the call returns, \<^verbatim>\<open>results['x']\<close> and \<^verbatim>\<open>raw['xr']\<close> each grow by exactly \<open>k\<close>
  entries, and for a split point \<open>nx\<close> (the end of \<open>Pg\<close> for DC, of \<open>Qg\<close> for AC) inside
  the vector the new vector is the old one with \<open>k\<close> zeros after its first \<open>nx\<close> entries:
  the entries before \<open>nx\<close> and those from \<open>nx\<close> on keep their values and order.
\<close>

theorem pwl_patch_inserts_zeros:
  assumes "solved env om ppopt alg (r0, s0, raw0)"
    and "returns env om ppopt (r, s, raw)"
    and "userdata_pwl1 om \<noteq> []" and "alg \<noteq> 545" and "alg \<noteq> 550"
    and "k = length (userdata_pwl1 om)"
  shows "\<exists>r3 raw3 nx xr3 xr.
           assemble env om (w_ppopt (fst (dispatch env om ppopt))) (PF_DC ppopt) alg (r0, s0, raw0)
             = Inr (r3, raw3)
         \<and> res_x r3 = res_x r0
         \<and> idx_iN (idx_var om) (if PF_DC ppopt then ''Pg'' else ''Qg'') = Some nx
         \<and> raw_xr raw3 = Some xr3 \<and> raw_xr raw = Some xr
         \<and> length (res_x r) = length (res_x r3) + k
         \<and> length xr = length xr3 + k
         \<and> (0 \<le> nx \<and> nx \<le> int (length (res_x r3)) \<longrightarrow>
              res_x r = spec_insert_zeros nx k (res_x r3))
         \<and> (0 \<le> nx \<and> nx \<le> int (length xr3) \<longrightarrow> xr = spec_insert_zeros nx k xr3)"
proof -
  let ?po = "w_ppopt (fst (dispatch env om ppopt))"
  from returns_post [OF assms(1,2)] obtain r3 raw3
    where a: "assemble env om ?po (PF_DC ppopt) alg (r0, s0, raw0) = Inr (r3, raw3)"
      and p: "pwl_patch om (PF_DC ppopt) alg r3 raw3 = Inr (r, raw)"
    by (auto simp: post_Inr)
  from pwl_patch_fires [OF p assms(3,4,5)] obtain nx xr3
    where nx: "idx_iN (idx_var om) (if PF_DC ppopt then ''Pg'' else ''Qg'') = Some nx"
      and xr3: "raw_xr raw3 = Some xr3"
      and r: "r = r3\<lparr>res_x := slice_to (res_x r3) nx @ replicate k 0 @ slice_from (res_x r3) nx\<rparr>"
      and raw: "raw = raw3\<lparr>raw_xr := Some (slice_to xr3 nx @ replicate k 0 @ slice_from xr3 nx)\<rparr>"
    unfolding assms(6) by blast
  let ?xr = "slice_to xr3 nx @ replicate k 0 @ slice_from xr3 nx"
  have "raw_xr raw = Some ?xr" by (simp add: raw)
  moreover have "length (res_x r) = length (res_x r3) + k"
    using slice_parts_length [of "res_x r3" nx] by (simp add: r)
  moreover have "length ?xr = length xr3 + k"
    using slice_parts_length [of xr3 nx] by simp
  moreover have "0 \<le> nx \<and> nx \<le> int (length (res_x r3)) \<longrightarrow>
                   res_x r = spec_insert_zeros nx k (res_x r3)"
    by (simp add: r slice_split_inside)
  moreover have "0 \<le> nx \<and> nx \<le> int (length xr3) \<longrightarrow> ?xr = spec_insert_zeros nx k xr3"
    by (simp add: slice_split_inside)
  ultimately show ?thesis
    using a assemble_res_x [OF a] nx xr3 by blast
qed


lemma ex_plain_returns:
  "snd (opf_execute (ex_env True None) (ex_om []) (ex_ppopt False 0 False))
     = Inr (returned (ex_env True None) (ex_om []) (ex_ppopt False 0 False))"
  by (simp add: returned_def op_defs ex_defs update_deprecated_id upt_rec)

lemma ex_plain_solved:
  "solved (ex_env True None) (ex_om []) (ex_ppopt False 0 False) 560 (ex_results None, True, ex_raw)"
  by (simp add: solved_def dispatch_def run_ac_def update_deprecated_id ex_env_def ex_ppopt_def)

theorem empty_pwl1_patch_noop_witness:
  "solved (ex_env True None) (ex_om []) (ex_ppopt False 0 False) 560 (ex_results None, True, ex_raw)
   \<and> returns (ex_env True None) (ex_om []) (ex_ppopt False 0 False)
        (returned (ex_env True None) (ex_om []) (ex_ppopt False 0 False))
   \<and> userdata_pwl1 (ex_om []) = []
   \<and> res_x (fst (returned (ex_env True None) (ex_om []) (ex_ppopt False 0 False))) = [1, 2, 3, 4]"
proof -
  let ?T = "returned (ex_env True None) (ex_om []) (ex_ppopt False 0 False)"
  have h2: "returns (ex_env True None) (ex_om []) (ex_ppopt False 0 False) ?T"
    using ex_plain_returns by (simp add: returns_def)
  then have h3: "returns (ex_env True None) (ex_om []) (ex_ppopt False 0 False)
                   (fst ?T, fst (snd ?T), snd (snd ?T))"
    by simp
  have h4: "userdata_pwl1 (ex_om []) = []" by (simp add: ex_om_def)
  from empty_pwl1_patch_noop [OF ex_plain_solved h3 h4] ex_plain_solved h2 h4 show ?thesis
    by (simp add: ex_results_def)
qed

lemma ex_dc_pwl_returns:
  "snd (opf_execute (ex_env True None) (ex_om [0]) (ex_ppopt True 0 False))
     = Inr (returned (ex_env True None) (ex_om [0]) (ex_ppopt True 0 False))"
  by (simp add: returned_def op_defs ex_defs upt_rec Let_def)

lemma ex_dc_pwl_solved:
  "solved (ex_env True None) (ex_om [0]) (ex_ppopt True 0 False) 0 (ex_results None, True, ex_raw)"
  by (simp add: solved_def dispatch_def ex_env_def ex_ppopt_def)

theorem pwl_patch_inserts_zeros_witness:
  "solved (ex_env True None) (ex_om [0]) (ex_ppopt True 0 False) 0 (ex_results None, True, ex_raw)
   \<and> returns (ex_env True None) (ex_om [0]) (ex_ppopt True 0 False)
        (returned (ex_env True None) (ex_om [0]) (ex_ppopt True 0 False))
   \<and> userdata_pwl1 (ex_om [0]) \<noteq> []
   \<and> res_x (fst (returned (ex_env True None) (ex_om [0]) (ex_ppopt True 0 False)))
       = [1, 2, 3, 0, 4]"
proof -
  let ?T = "returned (ex_env True None) (ex_om [0]) (ex_ppopt True 0 False)"
  have h2: "returns (ex_env True None) (ex_om [0]) (ex_ppopt True 0 False) ?T"
    using ex_dc_pwl_returns by (simp add: returns_def)
  then have h3: "returns (ex_env True None) (ex_om [0]) (ex_ppopt True 0 False)
                   (fst ?T, fst (snd ?T), snd (snd ?T))"
    by simp
  have h4: "userdata_pwl1 (ex_om [0]) \<noteq> []" by (simp add: ex_om_def)
  have h5: "(1::nat) = length (userdata_pwl1 (ex_om [0]))" by (simp add: ex_om_def)
  have nx: "idx_iN (idx_var (ex_om [0])) (if PF_DC (ex_ppopt True 0 False) then ''Pg'' else ''Qg'')
              = Some 3"
    by (simp add: idx_var_def ex_om_def ex_vv_def ex_ppopt_def)
  from pwl_patch_inserts_zeros [OF ex_dc_pwl_solved h3 h4 _ _ h5] nx
  have "res_x (fst ?T) = spec_insert_zeros 3 1 (res_x (ex_results None))"
    by (auto simp: ex_results_def)
  then have "res_x (fst ?T) = [1, 2, 3, 0, 4]"
    by (simp add: spec_insert_zeros_def ex_results_def)
  with ex_dc_pwl_solved h2 h4 show ?thesis by simp
qed

subsection \<open>The raw record\<close>

lemma pwl_patch_raw_frame:
  assumes "pwl_patch om dc alg r raw = Inr (r', raw')"
  shows "raw_output raw' = raw_output raw \<and> raw_rest raw' = raw_rest raw
       \<and> raw_g raw' = raw_g raw \<and> raw_dg raw' = raw_dg raw
       \<and> raw_df raw' = raw_df raw \<and> raw_d2f raw' = raw_d2f raw"
  using pwl_patch_frame [OF assms] by auto

lemma pwl_patch_no_xr:
  assumes "pwl_patch om dc alg r raw = Inr (r', raw')" and "raw_xr raw = None"
  shows "raw' = raw"
  using assms
  by (auto simp: pwl_patch_def Let_def ebind_eq_Inr sub_mapping_def split: if_splits prod.splits)

text \<open>
  C10. For a successful AC solve with \<^verbatim>\<open>RETURN_RAW_DER\<close> set whose results carry the
  legacy key \<^verbatim>\<open>'dg'\<close>, the \<^verbatim>\<open>raw\<close> a returning call hands back is a new dictionary
  with exactly the keys \<^verbatim>\<open>dg\<close>, \<^verbatim>\<open>g\<close>, \<^verbatim>\<open>df\<close> and \<^verbatim>\<open>d2f\<close>: the \<^verbatim>\<open>output\<close> record
  with the algorithm stamp, \<^verbatim>\<open>xr\<close> and every other key of the backend are gone.
\<close>

theorem legacy_dg_rebuilds_raw:
  assumes "solved env om ppopt alg (r0, True, raw0)"
    and "\<not> PF_DC ppopt" and "RETURN_RAW_DER ppopt" and "res_dg r0 = Some d"
    and "returns env om ppopt (r, s, raw)"
  shows "raw = empty_raw\<lparr>raw_dg := Some d, raw_g := res_g r0,
                         raw_df := Some (fst (snd (opf_costfcn env (res_x r0) om))),
                         raw_d2f := Some (snd (snd (opf_costfcn env (res_x r0) om)))\<rparr>
       \<and> res_g r0 \<noteq> None
       \<and> raw_output raw = None \<and> raw_xr raw = None \<and> raw_rest raw = Map.empty"
proof -
  let ?po = "w_ppopt (fst (dispatch env om ppopt))"
  from returns_post [OF assms(1,5)] assms(2) obtain r3 raw3 raw1 r2
    where co: "corrector env om ?po False (idx_lin om) r0 True raw1 = Inr (r2, raw3)"
      and pa: "pwl_patch om False alg r3 raw3 = Inr (r, raw)"
    by (auto simp: post_Inr assemble_Inr)
  from corrector_success_ac [OF co] obtain r1 r1'
    where cv: "copy_vg env r0 = Inr r1" and pq: "pq_multipliers env om (idx_lin om) r1 = Inr r1'"
      and rd: "raw_derivatives env om ?po r1' raw1 = Inr raw3"
    by auto
  from copy_vg_frame [OF cv] pq_multipliers_frame [OF pq]
  have same: "res_dg r1' = res_dg r0" "res_g r1' = res_g r0" "res_x r1' = res_x r0" by auto
  have der: "RETURN_RAW_DER ?po" by (simp add: dispatch_ppopt assms(3))
  from raw_derivatives_legacy [OF rd der, of d] same assms(4)
  have g: "res_g r0 \<noteq> None"
    and raw3: "raw3 = empty_raw\<lparr>raw_dg := Some d, raw_g := res_g r0,
                         raw_df := Some (fst (snd (opf_costfcn env (res_x r0) om))),
                         raw_d2f := Some (snd (snd (opf_costfcn env (res_x r0) om)))\<rparr>"
    by simp_all
  then have "raw_xr raw3 = None" by (simp add: empty_raw_def)
  from pwl_patch_no_xr [OF pa this] have "raw = raw3" .
  with raw3 g show ?thesis by (simp add: empty_raw_def)
qed


lemma ex_legacy_returns:
  "snd (opf_execute (ex_env True (Some (Vec [1]))) (ex_om []) (ex_ppopt False 0 True))
     = Inr (returned (ex_env True (Some (Vec [1]))) (ex_om []) (ex_ppopt False 0 True))"
  by (simp add: returned_def op_defs ex_defs update_deprecated_id upt_rec Let_def)

lemma ex_legacy_solved:
  "solved (ex_env True (Some (Vec [1]))) (ex_om []) (ex_ppopt False 0 True) 560
     (ex_results (Some (Vec [1])), True, ex_raw)"
  by (simp add: solved_def dispatch_def run_ac_def update_deprecated_id ex_env_def ex_ppopt_def)

theorem legacy_dg_rebuilds_raw_witness:
  "solved (ex_env True (Some (Vec [1]))) (ex_om []) (ex_ppopt False 0 True) 560
     (ex_results (Some (Vec [1])), True, ex_raw)
   \<and> returns (ex_env True (Some (Vec [1]))) (ex_om []) (ex_ppopt False 0 True)
        (returned (ex_env True (Some (Vec [1]))) (ex_om []) (ex_ppopt False 0 True))
   \<and> snd (snd (returned (ex_env True (Some (Vec [1]))) (ex_om []) (ex_ppopt False 0 True)))
       = empty_raw\<lparr>raw_dg := Some (Vec [1]), raw_g := Some (Vec [1]),
                    raw_df := Some (Vec []), raw_d2f := Some (Mat [])\<rparr>"
proof -
  let ?E = "ex_env True (Some (Vec [1]))" and ?P = "ex_ppopt False 0 True"
  let ?T = "returned ?E (ex_om []) ?P"
  have h2: "returns ?E (ex_om []) ?P ?T"
    using ex_legacy_returns by (simp add: returns_def)
  then have h3: "returns ?E (ex_om []) ?P (fst ?T, fst (snd ?T), snd (snd ?T))"
    by simp
  have p: "\<not> PF_DC ?P" "RETURN_RAW_DER ?P" by (simp_all add: ex_ppopt_def)
  have d: "res_dg (ex_results (Some (Vec [1]))) = Some (Vec [1])" by (simp add: ex_results_def)
  have c: "opf_costfcn ?E = (\<lambda>x om. (0, Vec [], Mat []))" by (simp add: ex_env_def)
  from legacy_dg_rebuilds_raw [OF ex_legacy_solved p d h3] ex_legacy_solved h2 c show ?thesis
    by (simp add: ex_results_def)
qed

subsection \<open>The algorithm stamp in the returned raw\<close>

text \<open>
  C3. The claim is that every call that returns hands back a \<^verbatim>\<open>raw\<close> whose \<^verbatim>\<open>output\<close>
  record carries the resolved code, stamped in where \<^verbatim>\<open>raw\<close> has no \<^verbatim>\<open>output\<close> record,
  no \<^verbatim>\<open>alg\<close> key in it or an empty one. The function does not keep this. A successful AC
  solve with \<^verbatim>\<open>RETURN_RAW_DER\<close> set whose results carry \<^verbatim>\<open>'dg'\<close> returns, and the
  \<^verbatim>\<open>raw\<close> it returns has no \<^verbatim>\<open>output\<close> record: line 118 rebinds \<^verbatim>\<open>raw\<close> after the stamp
  of line 100. For a backend \<^verbatim>\<open>raw\<close> without an \<^verbatim>\<open>output\<close> record the test of line 99
  holds and line 100 raises KeyError instead of stamping; for one whose \<^verbatim>\<open>alg\<close> entry is
  an integer, \<^verbatim>\<open>len\<close> in line 99 raises TypeError.
\<close>

theorem stamp_lost_or_raises:
  "snd (opf_execute (ex_env True (Some (Vec [1]))) (ex_om []) (ex_ppopt False 0 True))
     = Inr (returned (ex_env True (Some (Vec [1]))) (ex_om []) (ex_ppopt False 0 True))
   \<and> raw_output (snd (snd (returned (ex_env True (Some (Vec [1]))) (ex_om [])
                              (ex_ppopt False 0 True)))) = None
   \<and> snd (opf_execute (ex_env_with (ex_results None) ex_raw_no_output) (ex_om [])
             (ex_ppopt False 0 False)) = Inl (KeyError ''output'')
   \<and> snd (opf_execute (ex_env_with (ex_results None) ex_raw_int_alg) (ex_om [])
             (ex_ppopt False 0 False)) = Inl TypeError"
  by (simp add: returned_def op_defs ex_defs ex_env_with_def ex_raw_no_output_def
      ex_raw_int_alg_def update_deprecated_id upt_rec Let_def)


subsection \<open>Index arrays\<close>

lemma mapM_Inr_length: "mapM f xs = Inr ys \<Longrightarrow> length ys = length xs"
  by (induction xs arbitrary: ys) (auto simp: ebind_eq_Inr)

lemma mapM_Inr_nth: "mapM f xs = Inr ys \<Longrightarrow> k < length xs \<Longrightarrow> f (xs ! k) = Inr (ys ! k)"
proof (induction xs arbitrary: ys k)
  case Nil
  then show ?case by simp
next
  case (Cons x xs)
  then show ?case by (cases k) (auto simp: ebind_eq_Inr)
qed

lemma py_index_less: "py_index n i = Inr j \<Longrightarrow> j < n"
  by (auto simp: py_index_def Let_def split: if_splits)

lemma py_index_nonneg: "0 \<le> i \<Longrightarrow> py_index n i = Inr j \<Longrightarrow> j = nat i"
  by (auto simp: py_index_def Let_def split: if_splits)

lemma mapM_py_index_less:
  assumes "mapM (py_index n) idx = Inr js" and "k < length js"
  shows "js ! k < n"
  using mapM_Inr_nth [OF assms(1), of k] mapM_Inr_length [OF assms(1)] assms(2)
  by (auto dest: py_index_less)

lemma length_arange [simp]: "length (arange a b) = nat (b - a)"
  by (simp add: arange_def)

lemma nth_arange: "k < nat (b - a) \<Longrightarrow> arange a b ! k = a + int k"
  by (simp add: arange_def)

lemma mapM_py_index_arange: "mapM (py_index n) (arange 0 (int n)) = Inr [0..<n]"
proof -
  have "mapM (py_index n) (map int [0..<m]) = Inr [0..<m]" if "m \<le> n" for m
    using that
  proof (induction m)
    case 0
    then show ?case by simp
  next
    case (Suc m)
    have *: "mapM f (xs @ [x]) = ebind (mapM f xs) (\<lambda>ys. ebind (f x) (\<lambda>y. Inr (ys @ [y])))"
      for f :: "int \<Rightarrow> error + nat" and xs x
      by (induction xs) (auto simp: ebind_def split: sum.splits)
    from Suc show ?case by (simp add: * py_index_def)
  qed
  from this [of n] show ?thesis by (simp add: arange_def)
qed

lemma take_idx_Inr:
  assumes "take_idx xs idx = Inr ys"
  shows "length ys = length idx"
    and "k < length idx \<Longrightarrow> \<exists>j. py_index (length xs) (idx ! k) = Inr j \<and> ys ! k = xs ! j"
proof -
  from assms show "length ys = length idx"
    by (simp add: take_idx_def mapM_Inr_length)
  assume "k < length idx"
  from mapM_Inr_nth [OF assms [unfolded take_idx_def] this]
  show "\<exists>j. py_index (length xs) (idx ! k) = Inr j \<and> ys ! k = xs ! j"
    by (auto simp: ebind_eq_Inr)
qed

subsection \<open>Cell assignment\<close>

lemma length_put_cells [simp]: "length (put_cells c jv rs) = length rs"
  by (induction jv arbitrary: rs) (auto simp: put_cells_def)

lemma put_cells_Cons:
  "put_cells c ((j, v) # jv) rs = put_cells c jv (rs[j := (rs ! j)[c := v]])"
  by (simp add: put_cells_def)

lemma put_cells_row_length: "length (put_cells c jv rs ! j) = length (rs ! j)"
proof (induction jv arbitrary: rs)
  case Nil
  then show ?case by (simp add: put_cells_def)
next
  case (Cons p jv)
  obtain i v where p: "p = (i, v)" by (cases p)
  show ?case
    unfolding p put_cells_Cons Cons.IH
    by (cases "i = j"; cases "j < length rs") (simp_all add: list_update_beyond)
qed

lemma put_cells_other_col:
  "c' \<noteq> c \<Longrightarrow> put_cells c jv rs ! j ! c' = rs ! j ! c'"
proof (induction jv arbitrary: rs)
  case Nil
  then show ?case by (simp add: put_cells_def)
next
  case (Cons p jv)
  obtain i v where p: "p = (i, v)" by (cases p)
  from Cons show ?case
    unfolding p put_cells_Cons
    by (cases "i = j"; cases "j < length rs") (simp_all add: list_update_beyond)
qed

lemma put_cells_untouched:
  "j \<notin> fst ` set jv \<Longrightarrow> put_cells c jv rs ! j = rs ! j"
proof (induction jv arbitrary: rs)
  case Nil
  then show ?case by (simp add: put_cells_def)
next
  case (Cons p jv)
  obtain i v where p: "p = (i, v)" by (cases p)
  from Cons show ?case
    unfolding p put_cells_Cons by simp
qed

lemma put_cells_hit:
  assumes "distinct (map fst jv)" and "k < length jv"
    and "fst (jv ! k) < length rs" and "c < length (rs ! fst (jv ! k))"
  shows "put_cells c jv rs ! fst (jv ! k) ! c = snd (jv ! k)"
  using assms
proof (induction jv arbitrary: rs k)
  case Nil
  then show ?case by simp
next
  case (Cons p jv)
  obtain i v where p: "p = (i, v)" by (cases p)
  show ?case
  proof (cases k)
    case 0
    with Cons.prems p have "i \<notin> fst ` set jv" "i < length rs" "c < length (rs ! i)" by auto
    with 0 p show ?thesis
      by (simp add: put_cells_Cons put_cells_untouched)
  next
    case (Suc k')
    with Cons.prems p have d: "distinct (map fst jv)" and k': "k' < length jv"
      and ne: "fst (jv ! k') \<noteq> i" and lt: "fst (jv ! k') < length rs"
      and c: "c < length (rs ! fst (jv ! k'))"
      by (auto simp: nth_mem image_iff dest!: nth_mem [of k' jv])
    from Cons.IH [OF d k', of "rs[i := (rs ! i)[c := v]]"] ne lt c Suc p show ?thesis
      by (simp add: put_cells_Cons)
  qed
qed

lemma set_rows_col_Inr:
  assumes "set_rows_col m idx c v = Inr m'"
  shows "\<exists>js. mapM (py_index (length (rows m))) idx = Inr js
           \<and> c < ncols m \<and> ncols m' = ncols m
           \<and> (length v = length js \<or> length v = 1)
           \<and> rows m' = put_cells c (zip js (map (broadcast_nth v (length js)) [0..<length js]))
                          (rows m)"
proof -
  from assms obtain js where js: "mapM (py_index (length (rows m))) idx = Inr js"
    and c: "c < ncols m"
    and m': "(length v = length js \<and> m' = m\<lparr>rows := put_cells c (zip js v) (rows m)\<rparr>)
           \<or> (length v \<noteq> length js \<and> length v = 1
              \<and> m' = m\<lparr>rows := put_cells c (zip js (replicate (length js) (v ! 0))) (rows m)\<rparr>)"
    by (auto simp: set_rows_col_def ebind_eq_Inr split: if_splits)
  have "map (broadcast_nth v (length js)) [0..<length js]
          = (if length v = length js then v else replicate (length js) (v ! 0))"
  proof (cases "length v = length js")
    case True
    then have "broadcast_nth v (length js) = (!) v"
      by (simp add: broadcast_nth_def fun_eq_iff)
    with True map_nth [of v] show ?thesis by simp
  next
    case False
    then have "broadcast_nth v (length js) = (\<lambda>k. v ! 0)"
      by (simp add: broadcast_nth_def fun_eq_iff)
    with False show ?thesis by (simp add: map_replicate_const)
  qed
  with js c m' show ?thesis by auto
qed

lemma set_rows_col_wf:
  assumes "set_rows_col m idx c v = Inr m'" and "wf_matrix m"
  shows "wf_matrix m'" and "length (rows m') = length (rows m)"
proof -
  from set_rows_col_Inr [OF assms(1)] obtain jv
    where n: "ncols m' = ncols m" and r: "rows m' = put_cells c jv (rows m)" by blast
  show "length (rows m') = length (rows m)" by (simp add: r)
  from assms(2) show "wf_matrix m'"
    by (auto simp: wf_matrix_def list_all_length n r put_cells_row_length)
qed

text \<open>One cell of a matrix after an assignment to distinct rows.\<close>

lemma set_rows_col_cell:
  assumes "set_rows_col m idx c v = Inr m'" and "wf_matrix m"
    and "mapM (py_index (length (rows m))) idx = Inr js" and "distinct js" and "k < length js"
  shows "rows m' ! (js ! k) ! c = broadcast_nth v (length js) k"
proof -
  let ?vs = "map (broadcast_nth v (length js)) [0..<length js]"
  from set_rows_col_Inr [OF assms(1)] assms(3)
  have c: "c < ncols m" and r: "rows m' = put_cells c (zip js ?vs) (rows m)" by auto
  have lt: "js ! k < length (rows m)"
    using mapM_py_index_less [OF assms(3,5)] .
  with assms(2) c have cl: "c < length (rows m ! (js ! k))"
    by (simp add: wf_matrix_def list_all_length)
  have "put_cells c (zip js ?vs) (rows m) ! fst (zip js ?vs ! k) ! c = snd (zip js ?vs ! k)"
    using assms(4,5) lt cl by (intro put_cells_hit) simp_all
  with assms(5) r show ?thesis by simp
qed

lemma set_rows_col_other_col:
  assumes "set_rows_col m idx c v = Inr m'" and "c' \<noteq> c"
  shows "rows m' ! j ! c' = rows m ! j ! c'"
  using set_rows_col_Inr [OF assms(1)] assms(2) by (auto simp: put_cells_other_col)


subsection \<open>Voltage copy-back\<close>

lemma copy_vg_length:
  assumes "copy_vg env r = Inr r'" and "wf_matrix (res_gen r)"
  shows "length (rows (res_gen r')) = length (rows (res_gen r))"
proof -
  from assms(1) obtain vm g
    where g: "set_col (res_gen r) (VG env) vm = Inr g" and r': "r' = r\<lparr>res_gen := g\<rparr>"
    by (auto simp: copy_vg_def ebind_eq_Inr)
  from g have "set_rows_col (res_gen r) (arange 0 (int (length (rows (res_gen r))))) (VG env) vm
                 = Inr g"
    by (simp add: set_col_def)
  from set_rows_col_wf(2) [OF this assms(2)] r' show ?thesis by simp
qed

lemma copy_vg_Inr:
  assumes "copy_vg env r = Inr r'" and "wf_matrix (res_gen r)" and "VG env \<noteq> GEN_BUS env"
    and "i < length (rows (res_gen r))"
  shows "rows (res_gen r') ! i ! GEN_BUS env = rows (res_gen r) ! i ! GEN_BUS env"
    and "\<exists>j. py_index (length (rows (res_bus r))) (astype_int (rows (res_gen r) ! i ! GEN_BUS env))
               = Inr j
             \<and> rows (res_gen r') ! i ! VG env = rows (res_bus r) ! j ! VM env"
proof -
  let ?n = "length (rows (res_gen r))"
  let ?gb = "map (\<lambda>row. row ! GEN_BUS env) (rows (res_gen r))"
  from assms(1) obtain vm g
    where vm: "take_idx (map (\<lambda>row. row ! VM env) (rows (res_bus r))) (map astype_int ?gb) = Inr vm"
      and g: "set_col (res_gen r) (VG env) vm = Inr g"
      and r': "r' = r\<lparr>res_gen := g\<rparr>"
    by (auto simp: copy_vg_def get_col_def get_rows_col_def ebind_eq_Inr split: if_splits)
  from g have sr: "set_rows_col (res_gen r) (arange 0 (int ?n)) (VG env) vm = Inr g"
    by (simp add: set_col_def)
  from set_rows_col_other_col [OF sr, of "GEN_BUS env" i] assms(3) r'
  show "rows (res_gen r') ! i ! GEN_BUS env = rows (res_gen r) ! i ! GEN_BUS env" by simp
  have len: "length vm = ?n" using take_idx_Inr(1) [OF vm] by simp
  from take_idx_Inr(2) [OF vm, of i] assms(4) obtain j
    where j: "py_index (length (rows (res_bus r))) (astype_int (rows (res_gen r) ! i ! GEN_BUS env))
                = Inr j"
      and vmi: "vm ! i = map (\<lambda>row. row ! VM env) (rows (res_bus r)) ! j"
    by auto
  from py_index_less [OF j] vmi have vmi': "vm ! i = rows (res_bus r) ! j ! VM env" by simp
  have "rows g ! ([0..<?n] ! i) ! VG env = broadcast_nth vm (length [0..<?n]) i"
    using assms(4)
    by (intro set_rows_col_cell [OF sr assms(2) mapM_py_index_arange]) simp_all
  with assms(4) len have "rows g ! i ! VG env = vm ! i" by (simp add: broadcast_nth_def)
  with j vmi' r'
  show "\<exists>j. py_index (length (rows (res_bus r))) (astype_int (rows (res_gen r) ! i ! GEN_BUS env))
               = Inr j
             \<and> rows (res_gen r') ! i ! VG env = rows (res_bus r) ! j ! VM env"
    by auto
qed

lemma pq_multipliers_col:
  assumes "pq_multipliers env om ll r = Inr r'"
    and "\<And>b g h l a. map (\<lambda>row. row ! c) (rows (update_mupq env b g h l a))
                        = map (\<lambda>row. row ! c) (rows g)"
  shows "map (\<lambda>row. row ! c) (rows (res_gen r')) = map (\<lambda>row. row ! c) (rows (res_gen r))"
  using assms
  by (auto simp: pq_multipliers_def ebind_eq_Inr split: if_splits)

text \<open>
  C4. For a successful AC solve that returns, every row of the returned gen table holds
  in column \<open>VG\<close> the entry of column \<open>VM\<close> of the bus row that the integer part of its
  column \<open>GEN_BUS\<close> indexes, and the bus table is the backend's. The gen table is a
  rectangular array, \<open>VG\<close> and \<open>GEN_BUS\<close> are different columns, and \<^verbatim>\<open>update_mupq\<close>
  leaves both columns as they are.
\<close>

theorem gen_voltage_matches_bus:
  assumes "solved env om ppopt alg (r0, True, raw0)" and "\<not> PF_DC ppopt"
    and "returns env om ppopt (r, s, raw)"
    and "wf_matrix (res_gen r0)" and "VG env \<noteq> GEN_BUS env"
    and "\<And>b g h l a. map (\<lambda>row. row ! VG env) (rows (update_mupq env b g h l a))
                        = map (\<lambda>row. row ! VG env) (rows g)"
    and "\<And>b g h l a. map (\<lambda>row. row ! GEN_BUS env) (rows (update_mupq env b g h l a))
                        = map (\<lambda>row. row ! GEN_BUS env) (rows g)"
    and "i < length (rows (res_gen r))"
  shows "res_bus r = res_bus r0 \<and> length (rows (res_gen r)) = length (rows (res_gen r0))
       \<and> (\<exists>j. py_index (length (rows (res_bus r))) (astype_int (rows (res_gen r) ! i ! GEN_BUS env))
                 = Inr j
               \<and> rows (res_gen r) ! i ! VG env = rows (res_bus r) ! j ! VM env)"
proof -
  let ?po = "w_ppopt (fst (dispatch env om ppopt))"
  from returns_post [OF assms(1,3)] assms(2) obtain r3 raw3 raw1 r2
    where co: "corrector env om ?po False (idx_lin om) r0 True raw1 = Inr (r2, raw3)"
      and ex: "expander om False (idx_var om) (idx_lin om) (idx_nln om) r2 = Inr r3"
      and pa: "pwl_patch om False alg r3 raw3 = Inr (r, raw)"
    by (auto simp: post_Inr assemble_Inr)
  from corrector_success_ac [OF co] obtain r1 r1' r4
    where cv: "copy_vg env r0 = Inr r1" and pq: "pq_multipliers env om (idx_lin om) r1 = Inr r1'"
      and dl: "del_legacy r1' = Inr r4" and an: "ang_multipliers env om (idx_lin om) r4 = Inr r2"
    by auto
  from del_legacy_frame [OF dl] ang_multipliers_frame [OF an] expander_frame [OF ex]
    pwl_patch_frame [OF pa]
  have gen: "res_gen r = res_gen r1'" and bus: "res_bus r = res_bus r1'" by auto
  from copy_vg_frame [OF cv] pq_multipliers_frame [OF pq] have bus0: "res_bus r1' = res_bus r0"
    by auto
  have cols: "map (\<lambda>row. row ! VG env) (rows (res_gen r1'))
                = map (\<lambda>row. row ! VG env) (rows (res_gen r1))"
    "map (\<lambda>row. row ! GEN_BUS env) (rows (res_gen r1'))
                = map (\<lambda>row. row ! GEN_BUS env) (rows (res_gen r1))"
    using pq_multipliers_col [OF pq assms(6)] pq_multipliers_col [OF pq assms(7)] by auto
  from cols(1) have len1: "length (rows (res_gen r1')) = length (rows (res_gen r1))"
    by (rule map_eq_imp_length_eq)
  have i1: "i < length (rows (res_gen r1))" using assms(8) gen len1 by simp
  have i1': "i < length (rows (res_gen r1'))" using assms(8) gen by simp
  from cols i1 i1' have vg: "rows (res_gen r1') ! i ! VG env = rows (res_gen r1) ! i ! VG env"
    and gb: "rows (res_gen r1') ! i ! GEN_BUS env = rows (res_gen r1) ! i ! GEN_BUS env"
    by (metis nth_map)+
  have len0: "length (rows (res_gen r1)) = length (rows (res_gen r0))"
    by (rule copy_vg_length [OF cv assms(4)])
  with i1 have i0: "i < length (rows (res_gen r0))" by simp
  from copy_vg_Inr [OF cv assms(4,5) i0] vg gb gen bus bus0 len1 len0 show ?thesis
    by auto
qed


lemma ex_plain_tables:
  "res_bus (fst (returned (ex_env True None) (ex_om []) (ex_ppopt False 0 False))) = ex_bus
   \<and> rows (res_gen (fst (returned (ex_env True None) (ex_om []) (ex_ppopt False 0 False))))
       = [[1, 10, 3], [0, 20, 2]]"
  by (simp add: returned_def op_defs ex_defs update_deprecated_id upt_rec Let_def)

theorem gen_voltage_matches_bus_witness:
  "solved (ex_env True None) (ex_om []) (ex_ppopt False 0 False) 560 (ex_results None, True, ex_raw)
   \<and> returns (ex_env True None) (ex_om []) (ex_ppopt False 0 False)
        (returned (ex_env True None) (ex_om []) (ex_ppopt False 0 False))
   \<and> wf_matrix (res_gen (ex_results None))
   \<and> rows (res_gen (fst (returned (ex_env True None) (ex_om []) (ex_ppopt False 0 False)))) ! 0 ! 2
       = rows ex_bus ! 1 ! 1"
proof -
  let ?E = "ex_env True None" and ?P = "ex_ppopt False 0 False"
  let ?T = "returned ?E (ex_om []) ?P"
  have h2: "returns ?E (ex_om []) ?P ?T"
    using ex_plain_returns by (simp add: returns_def)
  then have h3: "returns ?E (ex_om []) ?P (fst ?T, fst (snd ?T), snd (snd ?T))"
    by simp
  have ac: "\<not> PF_DC ?P" by (simp add: ex_ppopt_def)
  have wf: "wf_matrix (res_gen (ex_results None))"
    by (simp add: wf_matrix_def ex_results_def ex_gen_def)
  have cols: "VG ?E = 2" "GEN_BUS ?E = 0" "VM ?E = 1" by (simp_all add: ex_env_def)
  have ne: "VG ?E \<noteq> GEN_BUS ?E" by (simp add: cols)
  have up: "update_mupq ?E = (\<lambda>b g h l a. g)" by (simp add: ex_env_def)
  have i: "0 < length (rows (res_gen (fst ?T)))" using ex_plain_tables by simp
  from gen_voltage_matches_bus [OF ex_plain_solved ac h3 wf ne _ _ i] up
  obtain j where j: "py_index (length (rows (res_bus (fst ?T))))
                       (astype_int (rows (res_gen (fst ?T)) ! 0 ! GEN_BUS ?E)) = Inr j"
    and v: "rows (res_gen (fst ?T)) ! 0 ! VG ?E = rows (res_bus (fst ?T)) ! j ! VM ?E"
    by auto
  from j ex_plain_tables have "j = 1"
    by (simp add: cols ex_bus_def py_index_def astype_int_def)
  with v ex_plain_tables cols have "rows (res_gen (fst ?T)) ! 0 ! 2 = rows ex_bus ! 1 ! 1"
    by simp
  with ex_plain_solved h2 wf show ?thesis by simp
qed

subsection \<open>Angle-limit multipliers\<close>

lemma set_rows_col_length:
  assumes "set_rows_col m idx c v = Inr m'"
  shows "length (rows m') = length (rows m)"
  using set_rows_col_Inr [OF assms] by auto

lemma length_to_degrees [simp]: "length (to_degrees v) = length v"
  by (simp add: to_degrees_def)

lemma broadcast_to_degrees:
  assumes "k < n" and "length v = n \<or> length v = 1"
  shows "broadcast_nth (to_degrees v) n k = fl (fl (broadcast_nth v n k * pi64) / 180)"
  using assms by (auto simp: broadcast_nth_def to_degrees_def)

lemma ang_multipliers_Inr:
  assumes "ang_multipliers env om ll r = Inr r'"
  shows "\<exists>n. idx_N ll ''ang'' = Some n \<and> (n \<le> 0 \<longrightarrow> r' = r)
           \<and> (0 < n \<longrightarrow> (\<exists>a b js.
                 idx_i1 ll ''ang'' = Some a \<and> idx_iN ll ''ang'' = Some b
               \<and> mapM (py_index (length (rows (res_branch r)))) (userdata_iang om) = Inr js
               \<and> (wf_matrix (res_branch r) \<and> distinct js \<and> MU_ANGMIN env \<noteq> MU_ANGMAX env \<longrightarrow>
                    (\<forall>k<length js.
                       rows (res_branch r') ! (js ! k) ! MU_ANGMIN env
                         = fl (fl (broadcast_nth (py_slice (mu_lin_l (res_mu r)) a b) (length js) k
                                     * pi64) / 180)
                     \<and> rows (res_branch r') ! (js ! k) ! MU_ANGMAX env
                         = fl (fl (broadcast_nth (py_slice (mu_lin_u (res_mu r)) a b) (length js) k
                                     * pi64) / 180)))))"
proof -
  from assms obtain n where n: "idx_N ll ''ang'' = Some n"
    by (auto simp: ang_multipliers_def ebind_eq_Inr lookup_def split: option.splits)
  show ?thesis
  proof (cases "0 < n")
    case False
    with assms n show ?thesis by (simp add: ang_multipliers_def lookup_def)
  next
    case True
    from assms n True obtain a b br1 br2
      where a: "idx_i1 ll ''ang'' = Some a" and b: "idx_iN ll ''ang'' = Some b"
        and s1: "set_rows_col (res_branch r) (userdata_iang om) (MU_ANGMIN env)
                   (to_degrees (py_slice (mu_lin_l (res_mu r)) a b)) = Inr br1"
        and s2: "set_rows_col br1 (userdata_iang om) (MU_ANGMAX env)
                   (to_degrees (py_slice (mu_lin_u (res_mu r)) a b)) = Inr br2"
        and r': "r' = r\<lparr>res_branch := br2\<rparr>"
      by (auto simp: ang_multipliers_def ebind_eq_Inr lookup_def split: option.splits)
    from set_rows_col_Inr [OF s1] obtain js
      where js: "mapM (py_index (length (rows (res_branch r)))) (userdata_iang om) = Inr js"
        and l1: "length (to_degrees (py_slice (mu_lin_l (res_mu r)) a b)) = length js
               \<or> length (to_degrees (py_slice (mu_lin_l (res_mu r)) a b)) = 1"
      by blast
    have js2: "mapM (py_index (length (rows br1))) (userdata_iang om) = Inr js"
      using js set_rows_col_length [OF s1] by simp
    from set_rows_col_Inr [OF s2] js2
    have l2: "length (to_degrees (py_slice (mu_lin_u (res_mu r)) a b)) = length js
            \<or> length (to_degrees (py_slice (mu_lin_u (res_mu r)) a b)) = 1"
      by auto
    have cells: "rows (res_branch r') ! (js ! k) ! MU_ANGMIN env
                   = fl (fl (broadcast_nth (py_slice (mu_lin_l (res_mu r)) a b) (length js) k
                               * pi64) / 180)
               \<and> rows (res_branch r') ! (js ! k) ! MU_ANGMAX env
                   = fl (fl (broadcast_nth (py_slice (mu_lin_u (res_mu r)) a b) (length js) k
                               * pi64) / 180)"
      if wf: "wf_matrix (res_branch r)" and d: "distinct js"
        and ne: "MU_ANGMIN env \<noteq> MU_ANGMAX env" and k: "k < length js" for k
    proof -
      have "rows br1 ! (js ! k) ! MU_ANGMIN env
              = broadcast_nth (to_degrees (py_slice (mu_lin_l (res_mu r)) a b)) (length js) k"
        by (rule set_rows_col_cell [OF s1 wf js d k])
      moreover have "rows br2 ! (js ! k) ! MU_ANGMIN env = rows br1 ! (js ! k) ! MU_ANGMIN env"
        by (rule set_rows_col_other_col [OF s2 ne])
      moreover have "rows br2 ! (js ! k) ! MU_ANGMAX env
              = broadcast_nth (to_degrees (py_slice (mu_lin_u (res_mu r)) a b)) (length js) k"
        by (rule set_rows_col_cell [OF s2 set_rows_col_wf(1) [OF s1 wf] js2 d k])
      moreover have "broadcast_nth (to_degrees (py_slice (mu_lin_l (res_mu r)) a b)) (length js) k
              = fl (fl (broadcast_nth (py_slice (mu_lin_l (res_mu r)) a b) (length js) k
                          * pi64) / 180)"
        using k l1 by (intro broadcast_to_degrees) simp_all
      moreover have "broadcast_nth (to_degrees (py_slice (mu_lin_u (res_mu r)) a b)) (length js) k
              = fl (fl (broadcast_nth (py_slice (mu_lin_u (res_mu r)) a b) (length js) k
                          * pi64) / 180)"
        using k l2 by (intro broadcast_to_degrees) simp_all
      ultimately show ?thesis
        using r' by simp
    qed
    from n True a b js cells show ?thesis by auto
  qed
qed

lemma corrector_success_ang:
  assumes "corrector env om po dc ll r True raw = Inr (r', raw')"
  shows "\<exists>r4. res_branch r4 = res_branch r \<and> res_mu r4 = res_mu r
             \<and> ang_multipliers env om ll r4 = Inr r'"
proof (cases dc)
  case True
  with assms have "corrector env om po True ll r True raw = Inr (r', raw')" by simp
  from corrector_success_dc [OF this] obtain r4
    where d: "del_legacy r = Inr r4" and a: "ang_multipliers env om ll r4 = Inr r'" by auto
  from del_legacy_frame [OF d] have "res_branch r4 = res_branch r" "res_mu r4 = res_mu r"
    by (simp_all split: if_splits)
  with a show ?thesis by blast
next
  case False
  with assms have "corrector env om po False ll r True raw = Inr (r', raw')" by simp
  from corrector_success_ac [OF this] obtain r1 r2 r4
    where cv: "copy_vg env r = Inr r1" and pq: "pq_multipliers env om ll r1 = Inr r2"
      and d: "del_legacy r2 = Inr r4" and a: "ang_multipliers env om ll r4 = Inr r'" by auto
  from copy_vg_frame [OF cv] pq_multipliers_frame [OF pq] del_legacy_frame [OF d]
  have "res_branch r4 = res_branch r" "res_mu r4 = res_mu r"
    by (auto split: if_splits)
  with a show ?thesis by blast
qed

text \<open>
  C8, as the function has it. For a successful solve that returns: when the width of the
  \<open>ang\<close> block is positive, each branch row listed in \<^verbatim>\<open>iang\<close> holds in columns
  \<open>MU_ANGMIN\<close> and \<open>MU_ANGMAX\<close> the corresponding lower and upper multiplier of the block
  scaled by \<open>\<pi> / 180\<close> as float64 computes it, that is the multiplier times numpy's
  \<^verbatim>\<open>pi\<close>, rounded, divided by 180, rounded, for a product in the finite range of float64;
  when the width is zero the branch table is the backend's. The branch table is a
  rectangular array, the listed rows are different rows and the two columns are
  different columns. That dividing back returns the multiplier is not part of it.
\<close>

theorem angle_multipliers_scaled_float64:
  assumes "solved env om ppopt alg (r0, True, raw0)"
    and "returns env om ppopt (r, s, raw)"
  shows "\<exists>n. idx_N (idx_lin om) ''ang'' = Some n
           \<and> (n \<le> 0 \<longrightarrow> res_branch r = res_branch r0)
           \<and> (0 < n \<longrightarrow> (\<exists>a b js.
                 idx_i1 (idx_lin om) ''ang'' = Some a \<and> idx_iN (idx_lin om) ''ang'' = Some b
               \<and> mapM (py_index (length (rows (res_branch r0)))) (userdata_iang om) = Inr js
               \<and> (wf_matrix (res_branch r0) \<and> distinct js \<and> MU_ANGMIN env \<noteq> MU_ANGMAX env \<longrightarrow>
                    (\<forall>k<length js.
                       (in_range64 (fl (broadcast_nth (py_slice (mu_lin_l (res_mu r0)) a b)
                                          (length js) k * pi64)) \<longrightarrow>
                        rows (res_branch r) ! (js ! k) ! MU_ANGMIN env
                          = fl (fl (broadcast_nth (py_slice (mu_lin_l (res_mu r0)) a b)
                                      (length js) k * pi64) / 180))
                     \<and> (in_range64 (fl (broadcast_nth (py_slice (mu_lin_u (res_mu r0)) a b)
                                          (length js) k * pi64)) \<longrightarrow>
                        rows (res_branch r) ! (js ! k) ! MU_ANGMAX env
                          = fl (fl (broadcast_nth (py_slice (mu_lin_u (res_mu r0)) a b)
                                      (length js) k * pi64) / 180))))))"
proof -
  let ?po = "w_ppopt (fst (dispatch env om ppopt))"
  from returns_post [OF assms] obtain r3 raw3 raw1 r2
    where co: "corrector env om ?po (PF_DC ppopt) (idx_lin om) r0 True raw1 = Inr (r2, raw3)"
      and ex: "expander om (PF_DC ppopt) (idx_var om) (idx_lin om) (idx_nln om) r2 = Inr r3"
      and pa: "pwl_patch om (PF_DC ppopt) alg r3 raw3 = Inr (r, raw)"
    by (auto simp: post_Inr assemble_Inr)
  from corrector_success_ang [OF co] obtain r4
    where br: "res_branch r4 = res_branch r0" and mu: "res_mu r4 = res_mu r0"
      and an: "ang_multipliers env om (idx_lin om) r4 = Inr r2" by auto
  from expander_frame [OF ex] pwl_patch_frame [OF pa] have r: "res_branch r = res_branch r2"
    by auto
  from ang_multipliers_Inr [OF an] show ?thesis
    unfolding br mu r by (auto simp: br)
qed

lemmas fl_eval = fl_def ilog2.simps pi64_def pow2_def round_even_def Let_def

theorem angle_multipliers_scaled_float64_witness:
  "solved (ex_env True None) (ex_om []) (ex_ppopt False 0 False) 560 (ex_results None, True, ex_raw)
   \<and> returns (ex_env True None) (ex_om []) (ex_ppopt False 0 False)
        (returned (ex_env True None) (ex_om []) (ex_ppopt False 0 False))
   \<and> in_range64 (fl (5 * pi64)) \<and> in_range64 (fl (7 * pi64))
   \<and> rows (res_branch (fst (returned (ex_env True None) (ex_om []) (ex_ppopt False 0 False)))) ! 1 ! 1
       = 6288211335136391 / 72057594037927936
   \<and> rows (res_branch (fst (returned (ex_env True None) (ex_om []) (ex_ppopt False 0 False)))) ! 1 ! 2
       = 2200873967297737 / 18014398509481984"
proof -
  let ?E = "ex_env True None" and ?O = "ex_om []" and ?P = "ex_ppopt False 0 False"
  let ?T = "returned ?E ?O ?P"
  have h2: "returns ?E ?O ?P ?T"
    using ex_plain_returns by (simp add: returns_def)
  then have h3: "returns ?E ?O ?P (fst ?T, fst (snd ?T), snd (snd ?T))"
    by simp
  have p5: "fl (5 * pi64) = 4421398595017775 / 281474976710656"
    and p7: "fl (7 * pi64) = 6189958033024885 / 281474976710656"
    by (simp_all add: fl_eval)
  have d5: "fl (fl (5 * pi64) / 180) = 6288211335136391 / 72057594037927936"
    and d7: "fl (fl (7 * pi64) / 180) = 2200873967297737 / 18014398509481984"
    by (simp_all add: fl_eval)
  have rng: "in_range64 (fl (5 * pi64))" "in_range64 (fl (7 * pi64))"
    unfolding p5 p7 by (simp_all add: in_range64_def)
  from angle_multipliers_scaled_float64 [OF ex_plain_solved h3] obtain n
    where n: "idx_N (idx_lin ?O) ''ang'' = Some n"
      and pos: "0 < n \<longrightarrow> (\<exists>a b js.
                 idx_i1 (idx_lin ?O) ''ang'' = Some a \<and> idx_iN (idx_lin ?O) ''ang'' = Some b
               \<and> mapM (py_index (length (rows (res_branch (ex_results None))))) (userdata_iang ?O)
                   = Inr js
               \<and> (wf_matrix (res_branch (ex_results None)) \<and> distinct js
                    \<and> MU_ANGMIN ?E \<noteq> MU_ANGMAX ?E \<longrightarrow>
                    (\<forall>k<length js.
                       (in_range64 (fl (broadcast_nth
                                          (py_slice (mu_lin_l (res_mu (ex_results None))) a b)
                                          (length js) k * pi64)) \<longrightarrow>
                        rows (res_branch (fst ?T)) ! (js ! k) ! MU_ANGMIN ?E
                          = fl (fl (broadcast_nth
                                      (py_slice (mu_lin_l (res_mu (ex_results None))) a b)
                                      (length js) k * pi64) / 180))
                     \<and> (in_range64 (fl (broadcast_nth
                                          (py_slice (mu_lin_u (res_mu (ex_results None))) a b)
                                          (length js) k * pi64)) \<longrightarrow>
                        rows (res_branch (fst ?T)) ! (js ! k) ! MU_ANGMAX ?E
                          = fl (fl (broadcast_nth
                                      (py_slice (mu_lin_u (res_mu (ex_results None))) a b)
                                      (length js) k * pi64) / 180)))))"
    by auto
  from n have "n = 2" by (simp add: idx_lin_def ex_om_def ex_ll_def)
  with pos obtain a b js
    where a: "idx_i1 (idx_lin ?O) ''ang'' = Some a" and b: "idx_iN (idx_lin ?O) ''ang'' = Some b"
      and js: "mapM (py_index (length (rows (res_branch (ex_results None))))) (userdata_iang ?O)
                 = Inr js"
      and cells: "wf_matrix (res_branch (ex_results None)) \<and> distinct js
                    \<and> MU_ANGMIN ?E \<noteq> MU_ANGMAX ?E \<longrightarrow>
                    (\<forall>k<length js.
                       (in_range64 (fl (broadcast_nth
                                          (py_slice (mu_lin_l (res_mu (ex_results None))) a b)
                                          (length js) k * pi64)) \<longrightarrow>
                        rows (res_branch (fst ?T)) ! (js ! k) ! MU_ANGMIN ?E
                          = fl (fl (broadcast_nth
                                      (py_slice (mu_lin_l (res_mu (ex_results None))) a b)
                                      (length js) k * pi64) / 180))
                     \<and> (in_range64 (fl (broadcast_nth
                                          (py_slice (mu_lin_u (res_mu (ex_results None))) a b)
                                          (length js) k * pi64)) \<longrightarrow>
                        rows (res_branch (fst ?T)) ! (js ! k) ! MU_ANGMAX ?E
                          = fl (fl (broadcast_nth
                                      (py_slice (mu_lin_u (res_mu (ex_results None))) a b)
                                      (length js) k * pi64) / 180)))"
    by auto
  from a b have ab: "a = 0" "b = 2" by (simp_all add: idx_lin_def ex_om_def ex_ll_def)
  from js have js': "js = [1, 0]"
    by (simp add: ex_results_def ex_branch_def ex_om_def py_index_def)
  have pre: "wf_matrix (res_branch (ex_results None)) \<and> distinct js
               \<and> MU_ANGMIN ?E \<noteq> MU_ANGMAX ?E"
    by (simp add: js' wf_matrix_def ex_results_def ex_branch_def ex_env_def)
  have ml: "broadcast_nth (py_slice (mu_lin_l (res_mu (ex_results None))) a b) (length js) 0 = 5"
    and mu: "broadcast_nth (py_slice (mu_lin_u (res_mu (ex_results None))) a b) (length js) 0 = 7"
    by (simp_all add: js' ab ex_results_def ex_mu_def broadcast_nth_def py_slice_def
        slice_bound_def)
  have cols: "MU_ANGMIN ?E = 1" "MU_ANGMAX ?E = 2" by (simp_all add: ex_env_def)
  have k0: "0 < length js" "js ! 0 = 1" by (simp_all add: js')
  from cells pre k0(1)
  have "(in_range64 (fl (5 * pi64)) \<longrightarrow>
           rows (res_branch (fst ?T)) ! (js ! 0) ! MU_ANGMIN ?E = fl (fl (5 * pi64) / 180))
      \<and> (in_range64 (fl (7 * pi64)) \<longrightarrow>
           rows (res_branch (fst ?T)) ! (js ! 0) ! MU_ANGMAX ?E = fl (fl (7 * pi64) / 180))"
    unfolding ml [symmetric] mu [symmetric] by blast
  with rng have "rows (res_branch (fst ?T)) ! 1 ! 1 = fl (fl (5 * pi64) / 180)
               \<and> rows (res_branch (fst ?T)) ! 1 ! 2 = fl (fl (7 * pi64) / 180)"
    unfolding k0(2) cols by blast
  then have "rows (res_branch (fst ?T)) ! 1 ! 1 = 6288211335136391 / 72057594037927936
           \<and> rows (res_branch (fst ?T)) ! 1 ! 2 = 2200873967297737 / 18014398509481984"
    unfolding d5 d7 .
  with ex_plain_solved h2 rng show ?thesis by blast
qed

lemma ex_ang_returns:
  "snd (opf_execute (ex_env_with ex_results_ang ex_raw) (ex_om []) (ex_ppopt False 0 False))
     = Inr (returned (ex_env_with ex_results_ang ex_raw) (ex_om []) (ex_ppopt False 0 False))"
  by (simp add: returned_def op_defs ex_defs ex_env_with_def ex_results_ang_def
      update_deprecated_id upt_rec Let_def)

lemma ex_ang_cell:
  "rows (res_branch (fst (returned (ex_env_with ex_results_ang ex_raw) (ex_om [])
                            (ex_ppopt False 0 False)))) ! 1 ! 1
     = fl (fl (8687443681197687 / 70368744177664 * pi64) / 180)"
  by (simp add: returned_def op_defs ex_defs ex_env_with_def ex_results_ang_def
      update_deprecated_id upt_rec Let_def)

text \<open>
  C8 as claimed fails: the scale is not reversed by dividing back. In this call the first
  lower multiplier of the \<open>ang\<close> block is the float64 number \<^verbatim>\<open>123.456\<close>; branch row 1
  receives \<^verbatim>\<open>2.1547136813421197\<close> in column \<open>MU_ANGMIN\<close>, and that entry times 180
  divided by \<^verbatim>\<open>pi\<close> is \<^verbatim>\<open>123.45600000000002\<close>, another number.
\<close>

theorem angle_round_trip_counterexample:
  "snd (opf_execute (ex_env_with ex_results_ang ex_raw) (ex_om []) (ex_ppopt False 0 False))
     = Inr (returned (ex_env_with ex_results_ang ex_raw) (ex_om []) (ex_ppopt False 0 False))
   \<and> mu_lin_l (res_mu ex_results_ang) ! 0 = 8687443681197687 / 70368744177664
   \<and> rows (res_branch (fst (returned (ex_env_with ex_results_ang ex_raw) (ex_om [])
                              (ex_ppopt False 0 False)))) ! 1 ! 1
       = 606497983273905 / 281474976710656
   \<and> spec_divide_back
        (rows (res_branch (fst (returned (ex_env_with ex_results_ang ex_raw) (ex_om [])
                                  (ex_ppopt False 0 False)))) ! 1 ! 1)
       = 1085930460149711 / 8796093022208
   \<and> spec_divide_back
        (rows (res_branch (fst (returned (ex_env_with ex_results_ang ex_raw) (ex_om [])
                                  (ex_ppopt False 0 False)))) ! 1 ! 1)
       \<noteq> mu_lin_l (res_mu ex_results_ang) ! 0"
proof -
  have y: "fl (fl (8687443681197687 / 70368744177664 * pi64) / 180)
             = 606497983273905 / 281474976710656"
    by (simp add: fl_eval)
  have z: "spec_divide_back (606497983273905 / 281474976710656)
             = 1085930460149711 / 8796093022208"
    by (simp add: spec_divide_back_def fl_eval)
  have m: "mu_lin_l (res_mu ex_results_ang) ! 0 = 8687443681197687 / 70368744177664"
    by (simp add: ex_results_ang_def)
  have ne: "(1085930460149711 / 8796093022208 :: real) \<noteq> 8687443681197687 / 70368744177664"
    by simp
  show ?thesis
    unfolding ex_ang_cell y z m using ex_ang_returns ne by blast
qed


subsection \<open>Result expander\<close>

lemma take_idx_arange_length:
  "take_idx v (arange a b) = Inr val \<Longrightarrow> length val = nat (b - a)"
  using take_idx_Inr(1) [of v "arange a b" val] by simp

lemma take_idx_arange_slice:
  assumes "take_idx v (arange a b) = Inr val" and "0 \<le> a" and "a \<le> b"
  shows "val = py_slice v a b"
proof (cases "a = b")
  case True
  with assms(1) take_idx_arange_length [OF assms(1)] show ?thesis
    by (simp add: py_slice_def)
next
  case False
  with assms have lt: "a < b" by simp
  have len: "length val = nat (b - a)" by (rule take_idx_arange_length [OF assms(1)])
  have nth: "val ! k = v ! (nat a + k) \<and> nat a + k < length v" if "k < nat (b - a)" for k
  proof -
    from take_idx_Inr(2) [OF assms(1), of k] that obtain j
      where j: "py_index (length v) (arange a b ! k) = Inr j" and vk: "val ! k = v ! j"
      by auto
    from that have "arange a b ! k = a + int k" by (rule nth_arange)
    moreover from assms(2) have "0 \<le> a + int k" by simp
    ultimately have "j = nat (a + int k)" using j py_index_nonneg by metis
    with assms(2) have "j = nat a + k" by (simp add: nat_add_distrib)
    with vk py_index_less [OF j] show ?thesis by simp
  qed
  have split: "nat b = nat a + nat (b - a)" using lt assms(2) by arith
  have pos: "0 < nat (b - a)" using lt by simp
  then have "nat a + (nat (b - a) - 1) < length v"
    using nth [of "nat (b - a) - 1"] by simp
  with split pos have ble: "nat b \<le> length v" by arith
  with assms(2) lt have b1: "slice_bound (length v) a = nat a" "slice_bound (length v) b = nat b"
    by (simp_all add: slice_bound_def)
  have "val = take (nat b - nat a) (drop (nat a) v)"
  proof (rule nth_equalityI)
    from len ble assms(2) lt show "length val = length (take (nat b - nat a) (drop (nat a) v))"
      by simp
  next
    fix k assume "k < length val"
    with len have k: "k < nat (b - a)" by simp
    with assms(2) lt have "k < nat b - nat a" by simp
    with nth [OF k] show "val ! k = take (nat b - nat a) (drop (nat a) v) ! k" by simp
  qed
  then show ?thesis by (simp add: py_slice_def b1 Let_def)
qed

lemma block_ofI:
  assumes "idx_i1 ii name = Some a" and "idx_iN ii name = Some b"
    and "take_idx v (arange a b) = Inr val"
  shows "block_of ii name v val"
  using assms take_idx_arange_length [OF assms(3)] take_idx_arange_slice [OF assms(3)]
  by (simp add: block_of_def)

lemma assign_var_keeps:
  assumes "assign_var N vv x ml mu names d = Inr d'"
    and "\<not> (name \<in> set names \<and> N name \<noteq> 0)" and "d = Some v"
  shows "\<exists>v'. d' = Some v' \<and> var_val v' name = var_val v name
            \<and> var_mu_l v' name = var_mu_l v name \<and> var_mu_u v' name = var_mu_u v name"
  using assms
proof (induction names arbitrary: d v)
  case Nil
  then show ?case by auto
next
  case (Cons n ns)
  show ?case
  proof (cases "N n = 0")
    case True
    with Cons.prems have "assign_var N vv x ml mu ns d = Inr d'"
      and "\<not> (name \<in> set ns \<and> N name \<noteq> 0)" by auto
    from Cons.IH [OF this Cons.prems(3)] show ?thesis .
  next
    case False
    with Cons.prems(2) have ne: "name \<noteq> n" and rest: "\<not> (name \<in> set ns \<and> N name \<noteq> 0)"
      by auto
    from Cons.prems(1,3) False obtain val l u
      where rec: "assign_var N vv x ml mu ns
                    (Some \<lparr>var_val = (var_val v)(n \<mapsto> val), var_mu_l = (var_mu_l v)(n \<mapsto> l),
                           var_mu_u = (var_mu_u v)(n \<mapsto> u)\<rparr>) = Inr d'"
      by (auto simp: ebind_eq_Inr sub_mapping_def)
    from Cons.IH [OF rec rest refl] ne show ?thesis by simp
  qed
qed

lemma assign_var_sets:
  assumes "assign_var N vv x ml mu names d = Inr d'"
    and "name \<in> set names" and "N name \<noteq> 0"
  shows "\<exists>v' val l u. d' = Some v' \<and> var_val v' name = Some val
            \<and> var_mu_l v' name = Some l \<and> var_mu_u v' name = Some u
            \<and> block_of vv name x val \<and> block_of vv name ml l \<and> block_of vv name mu u"
  using assms
proof (induction names arbitrary: d)
  case Nil
  then show ?case by simp
next
  case (Cons n ns)
  show ?case
  proof (cases "N n = 0")
    case True
    with Cons.prems have "assign_var N vv x ml mu ns d = Inr d'" and "name \<in> set ns" by auto
    from Cons.IH [OF this Cons.prems(3)] show ?thesis .
  next
    case False
    with Cons.prems(1) obtain a b val l u and v :: var_res
      where a: "idx_i1 vv n = Some a" and b: "idx_iN vv n = Some b"
        and val: "take_idx x (arange a b) = Inr val"
        and l: "take_idx ml (arange a b) = Inr l" and u: "take_idx mu (arange a b) = Inr u"
        and rec: "assign_var N vv x ml mu ns
                    (Some \<lparr>var_val = (var_val v)(n \<mapsto> val), var_mu_l = (var_mu_l v)(n \<mapsto> l),
                           var_mu_u = (var_mu_u v)(n \<mapsto> u)\<rparr>) = Inr d'"
      by (auto simp: ebind_eq_Inr lookup_def sub_mapping_def split: option.splits)
    show ?thesis
    proof (cases "name \<in> set ns")
      case True
      from Cons.IH [OF rec True Cons.prems(3)] show ?thesis .
    next
      case False
      with Cons.prems(2) have eq: "name = n" by simp
      from False have "\<not> (name \<in> set ns \<and> N name \<noteq> 0)" by simp
      from assign_var_keeps [OF rec this refl] eq
        block_ofI [OF a b val] block_ofI [OF a b l] block_ofI [OF a b u]
      show ?thesis by auto
    qed
  qed
qed

lemma assign_con_keeps:
  assumes "assign_con key N ii ml mu names d = Inr d'"
    and "\<not> (name \<in> set names \<and> N name \<noteq> 0)" and "d = Some v"
  shows "\<exists>v'. d' = Some v' \<and> con_mu_l v' name = con_mu_l v name
            \<and> con_mu_u v' name = con_mu_u v name"
  using assms
proof (induction names arbitrary: d v)
  case Nil
  then show ?case by auto
next
  case (Cons n ns)
  show ?case
  proof (cases "N n = 0")
    case True
    with Cons.prems have "assign_con key N ii ml mu ns d = Inr d'"
      and "\<not> (name \<in> set ns \<and> N name \<noteq> 0)" by auto
    from Cons.IH [OF this Cons.prems(3)] show ?thesis .
  next
    case False
    with Cons.prems(2) have ne: "name \<noteq> n" and rest: "\<not> (name \<in> set ns \<and> N name \<noteq> 0)"
      by auto
    from Cons.prems(1,3) False obtain l u
      where rec: "assign_con key N ii ml mu ns
                    (Some \<lparr>con_mu_l = (con_mu_l v)(n \<mapsto> l), con_mu_u = (con_mu_u v)(n \<mapsto> u)\<rparr>)
                    = Inr d'"
      by (auto simp: ebind_eq_Inr sub_mapping_def)
    from Cons.IH [OF rec rest refl] ne show ?thesis by simp
  qed
qed

lemma assign_con_sets:
  assumes "assign_con key N ii ml mu names d = Inr d'"
    and "name \<in> set names" and "N name \<noteq> 0"
  shows "\<exists>v' l u. d' = Some v' \<and> con_mu_l v' name = Some l \<and> con_mu_u v' name = Some u
            \<and> block_of ii name ml l \<and> block_of ii name mu u"
  using assms
proof (induction names arbitrary: d)
  case Nil
  then show ?case by simp
next
  case (Cons n ns)
  show ?case
  proof (cases "N n = 0")
    case True
    with Cons.prems have "assign_con key N ii ml mu ns d = Inr d'" and "name \<in> set ns" by auto
    from Cons.IH [OF this Cons.prems(3)] show ?thesis .
  next
    case False
    with Cons.prems(1) obtain a b l u and v :: con_res
      where a: "idx_i1 ii n = Some a" and b: "idx_iN ii n = Some b"
        and l: "take_idx ml (arange a b) = Inr l" and u: "take_idx mu (arange a b) = Inr u"
        and rec: "assign_con key N ii ml mu ns
                    (Some \<lparr>con_mu_l = (con_mu_l v)(n \<mapsto> l), con_mu_u = (con_mu_u v)(n \<mapsto> u)\<rparr>)
                    = Inr d'"
      by (auto simp: ebind_eq_Inr lookup_def sub_mapping_def split: option.splits)
    show ?thesis
    proof (cases "name \<in> set ns")
      case True
      from Cons.IH [OF rec True Cons.prems(3)] show ?thesis .
    next
      case False
      with Cons.prems(2) have eq: "name = n" by simp
      from False have "\<not> (name \<in> set ns \<and> N name \<noteq> 0)" by simp
      from assign_con_keeps [OF rec this refl] eq block_ofI [OF a b l] block_ofI [OF a b u]
      show ?thesis by auto
    qed
  qed
qed

lemma assign_cost_keeps:
  assumes "assign_cost N cost names d = Inr d'"
    and "\<not> (name \<in> set names \<and> N name \<noteq> 0)" and "d = Some c"
  shows "\<exists>c'. d' = Some c' \<and> c' name = c name"
  using assms
proof (induction names arbitrary: d c)
  case Nil
  then show ?case by auto
next
  case (Cons n ns)
  show ?case
  proof (cases "N n = 0")
    case True
    with Cons.prems have "assign_cost N cost ns d = Inr d'"
      and "\<not> (name \<in> set ns \<and> N name \<noteq> 0)" by auto
    from Cons.IH [OF this Cons.prems(3)] show ?thesis .
  next
    case False
    with Cons.prems(2) have ne: "name \<noteq> n" and rest: "\<not> (name \<in> set ns \<and> N name \<noteq> 0)"
      by auto
    from Cons.prems(1,3) False
    have rec: "assign_cost N cost ns (Some (c(n \<mapsto> cost n))) = Inr d'"
      by (auto simp: ebind_eq_Inr sub_mapping_def)
    from Cons.IH [OF rec rest refl] ne show ?thesis by simp
  qed
qed

lemma assign_cost_sets:
  assumes "assign_cost N cost names d = Inr d'"
    and "name \<in> set names" and "N name \<noteq> 0"
  shows "\<exists>c'. d' = Some c' \<and> c' name = Some (cost name)"
  using assms
proof (induction names arbitrary: d)
  case Nil
  then show ?case by simp
next
  case (Cons n ns)
  show ?case
  proof (cases "N n = 0")
    case True
    with Cons.prems have "assign_cost N cost ns d = Inr d'" and "name \<in> set ns" by auto
    from Cons.IH [OF this Cons.prems(3)] show ?thesis .
  next
    case False
    with Cons.prems(1) obtain c
      where rec: "assign_cost N cost ns (Some (c(n \<mapsto> cost n))) = Inr d'"
      by (auto simp: ebind_eq_Inr sub_mapping_def split: option.splits)
    show ?thesis
    proof (cases "name \<in> set ns")
      case True
      from Cons.IH [OF rec True Cons.prems(3)] show ?thesis .
    next
      case False
      with Cons.prems(2) have eq: "name = n" by simp
      from False have "\<not> (name \<in> set ns \<and> N name \<noteq> 0)" by simp
      from assign_cost_keeps [OF rec this refl] eq show ?thesis by auto
    qed
  qed
qed


lemma corrector_res_mu:
  assumes "corrector env om po dc ll r s raw = Inr (r', raw')"
  shows "res_mu r' = res_mu r"
proof -
  consider (fail) "\<not> s" | (dc) "s" "dc" | (ac) "s" "\<not> dc" by blast
  then show ?thesis
  proof cases
    case fail
    with assms show ?thesis by (auto simp: corrector_def split: if_splits)
  next
    case dc
    with assms have "corrector env om po True ll r True raw = Inr (r', raw')" by simp
    from corrector_success_dc [OF this] obtain r4
      where "del_legacy r = Inr r4" and "ang_multipliers env om ll r4 = Inr r'" by auto
    then show ?thesis
      using del_legacy_frame [of r r4] ang_multipliers_frame [of env om ll r4 r'] by auto
  next
    case ac
    with assms have "corrector env om po False ll r True raw = Inr (r', raw')" by simp
    from corrector_success_ac [OF this] obtain r1 r2 r4
      where "copy_vg env r = Inr r1" and "pq_multipliers env om ll r1 = Inr r2"
        and "del_legacy r2 = Inr r4" and "ang_multipliers env om ll r4 = Inr r'" by auto
    then show ?thesis
      using copy_vg_frame [of env r r1] pq_multipliers_frame [of env om ll r1 r2]
        del_legacy_frame [of r2 r4] ang_multipliers_frame [of env om ll r4 r'] by auto
  qed
qed

lemma expander_Inr:
  assumes "expander om dc vv ll nn r = Inr r'"
  shows "assign_var (getN om ''var'') vv (res_x r) (mu_var_l (res_mu r)) (mu_var_u (res_mu r))
           (var_order om) (if var_order om \<noteq> [] then Some empty_var else res_var r)
           = Inr (res_var r')"
    and "assign_con ''lin'' (getN om ''lin'') ll (mu_lin_l (res_mu r)) (mu_lin_u (res_mu r))
           (lin_order om) (if lin_order om \<noteq> [] then Some empty_con else res_lin r)
           = Inr (res_lin r')"
    and "\<not> dc \<Longrightarrow>
         assign_con ''nln'' (getN om ''nln'') nn (mu_nln_l (res_mu r)) (mu_nln_u (res_mu r))
           (nln_order om) (if nln_order om \<noteq> [] then Some empty_con else res_nln r)
           = Inr (res_nln r')"
    and "assign_cost (getN om ''cost'') (compute_cost om (res_x r)) (cost_order om)
           (if cost_order om \<noteq> [] then Some Map.empty else res_cost r)
           = Inr (res_cost r')"
  using assms by (auto simp: expander_def ebind_eq_Inr)

lemma var_entries:
  assumes "assign_var N vv x ml mu names (Some empty_var) = Inr d'" and "name \<in> set names"
  shows "\<exists>v. d' = Some v
           \<and> (if N name = 0
              then var_val v name = None \<and> var_mu_l v name = None \<and> var_mu_u v name = None
              else \<exists>val l u. var_val v name = Some val \<and> var_mu_l v name = Some l
                     \<and> var_mu_u v name = Some u
                     \<and> block_of vv name x val \<and> block_of vv name ml l \<and> block_of vv name mu u)"
proof (cases "N name = 0")
  case True
  then have "\<not> (name \<in> set names \<and> N name \<noteq> 0)" by simp
  from assign_var_keeps [OF assms(1) this refl] True show ?thesis
    by (auto simp: empty_var_def)
next
  case False
  from assign_var_sets [OF assms(1,2) False] False show ?thesis by auto
qed

lemma con_entries:
  assumes "assign_con key N ii ml mu names (Some empty_con) = Inr d'" and "name \<in> set names"
  shows "\<exists>v. d' = Some v
           \<and> (if N name = 0
              then con_mu_l v name = None \<and> con_mu_u v name = None
              else \<exists>l u. con_mu_l v name = Some l \<and> con_mu_u v name = Some u
                     \<and> block_of ii name ml l \<and> block_of ii name mu u)"
proof (cases "N name = 0")
  case True
  then have "\<not> (name \<in> set names \<and> N name \<noteq> 0)" by simp
  from assign_con_keeps [OF assms(1) this refl] True show ?thesis
    by (auto simp: empty_con_def)
next
  case False
  from assign_con_sets [OF assms(1,2) False] False show ?thesis by auto
qed

lemma cost_entries:
  assumes "assign_cost N cost names (Some Map.empty) = Inr d'" and "name \<in> set names"
  shows "\<exists>c. d' = Some c \<and> c name = (if N name = 0 then None else Some (cost name))"
proof (cases "N name = 0")
  case True
  then have "\<not> (name \<in> set names \<and> N name \<noteq> 0)" by simp
  from assign_cost_keeps [OF assms(1) this refl] True show ?thesis by auto
next
  case False
  from assign_cost_sets [OF assms(1,2) False] False show ?thesis by auto
qed

text \<open>
  C5, as the function has it. When the call returns, for a name declared in the variable,
  the linear or (for an AC problem) the nonlinear space: a nonzero width puts the name
  into each entry of the space's sub-mapping with the block of the matching backend
  vector, that is its entries at \<open>first, ..., last - 1\<close>, \<open>last - first\<close> of them; a zero
  width leaves the name out of the sub-mapping. For a name declared in the cost space, a
  nonzero width stores the one number \<^verbatim>\<open>om.compute_cost(results['x'], name)\<close>, not a
  slice, and a zero width leaves the name out.
\<close>

theorem expander_entries:
  assumes "solved env om ppopt alg (r0, s0, raw0)"
    and "returns env om ppopt (r, s, raw)"
  shows "(vname \<in> set (var_order om) \<longrightarrow>
            (\<exists>v. res_var r = Some v
               \<and> (if getN om ''var'' vname = 0
                  then var_val v vname = None \<and> var_mu_l v vname = None
                     \<and> var_mu_u v vname = None
                  else \<exists>val l u. var_val v vname = Some val \<and> var_mu_l v vname = Some l
                         \<and> var_mu_u v vname = Some u
                         \<and> block_of (idx_var om) vname (res_x r0) val
                         \<and> block_of (idx_var om) vname (mu_var_l (res_mu r0)) l
                         \<and> block_of (idx_var om) vname (mu_var_u (res_mu r0)) u)))
       \<and> (lname \<in> set (lin_order om) \<longrightarrow>
            (\<exists>v. res_lin r = Some v
               \<and> (if getN om ''lin'' lname = 0
                  then con_mu_l v lname = None \<and> con_mu_u v lname = None
                  else \<exists>l u. con_mu_l v lname = Some l \<and> con_mu_u v lname = Some u
                         \<and> block_of (idx_lin om) lname (mu_lin_l (res_mu r0)) l
                         \<and> block_of (idx_lin om) lname (mu_lin_u (res_mu r0)) u)))
       \<and> (\<not> PF_DC ppopt \<and> nname \<in> set (nln_order om) \<longrightarrow>
            (\<exists>v. res_nln r = Some v
               \<and> (if getN om ''nln'' nname = 0
                  then con_mu_l v nname = None \<and> con_mu_u v nname = None
                  else \<exists>l u. con_mu_l v nname = Some l \<and> con_mu_u v nname = Some u
                         \<and> block_of (idx_nln om) nname (mu_nln_l (res_mu r0)) l
                         \<and> block_of (idx_nln om) nname (mu_nln_u (res_mu r0)) u)))
       \<and> (cname \<in> set (cost_order om) \<longrightarrow>
            (\<exists>c. res_cost r = Some c
               \<and> c cname = (if getN om ''cost'' cname = 0 then None
                             else Some (compute_cost om (res_x r0) cname))))"
proof -
  let ?po = "w_ppopt (fst (dispatch env om ppopt))"
  from returns_post [OF assms] obtain r3 raw3 raw1 r2
    where co: "corrector env om ?po (PF_DC ppopt) (idx_lin om) r0 s0 raw1 = Inr (r2, raw3)"
      and ex: "expander om (PF_DC ppopt) (idx_var om) (idx_lin om) (idx_nln om) r2 = Inr r3"
      and pa: "pwl_patch om (PF_DC ppopt) alg r3 raw3 = Inr (r, raw)"
    by (auto simp: post_Inr assemble_Inr)
  have x: "res_x r2 = res_x r0" by (rule corrector_res_x [OF co])
  have m: "res_mu r2 = res_mu r0" by (rule corrector_res_mu [OF co])
  from pwl_patch_frame [OF pa]
  have same: "res_var r = res_var r3" "res_lin r = res_lin r3" "res_nln r = res_nln r3"
    "res_cost r = res_cost r3" by auto
  note e = expander_Inr [OF ex, unfolded x m]
  have v: "\<exists>v. res_var r = Some v
               \<and> (if getN om ''var'' vname = 0
                  then var_val v vname = None \<and> var_mu_l v vname = None
                     \<and> var_mu_u v vname = None
                  else \<exists>val l u. var_val v vname = Some val \<and> var_mu_l v vname = Some l
                         \<and> var_mu_u v vname = Some u
                         \<and> block_of (idx_var om) vname (res_x r0) val
                         \<and> block_of (idx_var om) vname (mu_var_l (res_mu r0)) l
                         \<and> block_of (idx_var om) vname (mu_var_u (res_mu r0)) u)"
    if i: "vname \<in> set (var_order om)"
  proof -
    from i have "var_order om \<noteq> []" by auto
    with e(1) have "assign_var (getN om ''var'') (idx_var om) (res_x r0) (mu_var_l (res_mu r0))
                      (mu_var_u (res_mu r0)) (var_order om) (Some empty_var) = Inr (res_var r)"
      by (simp add: same)
    from var_entries [OF this i] show ?thesis .
  qed
  have l: "\<exists>v. res_lin r = Some v
               \<and> (if getN om ''lin'' lname = 0
                  then con_mu_l v lname = None \<and> con_mu_u v lname = None
                  else \<exists>l u. con_mu_l v lname = Some l \<and> con_mu_u v lname = Some u
                         \<and> block_of (idx_lin om) lname (mu_lin_l (res_mu r0)) l
                         \<and> block_of (idx_lin om) lname (mu_lin_u (res_mu r0)) u)"
    if i: "lname \<in> set (lin_order om)"
  proof -
    from i have "lin_order om \<noteq> []" by auto
    with e(2) have "assign_con ''lin'' (getN om ''lin'') (idx_lin om) (mu_lin_l (res_mu r0))
                      (mu_lin_u (res_mu r0)) (lin_order om) (Some empty_con) = Inr (res_lin r)"
      by (simp add: same)
    from con_entries [OF this i] show ?thesis .
  qed
  have n: "\<exists>v. res_nln r = Some v
               \<and> (if getN om ''nln'' nname = 0
                  then con_mu_l v nname = None \<and> con_mu_u v nname = None
                  else \<exists>l u. con_mu_l v nname = Some l \<and> con_mu_u v nname = Some u
                         \<and> block_of (idx_nln om) nname (mu_nln_l (res_mu r0)) l
                         \<and> block_of (idx_nln om) nname (mu_nln_u (res_mu r0)) u)"
    if ac: "\<not> PF_DC ppopt" and i: "nname \<in> set (nln_order om)"
  proof -
    from i have "nln_order om \<noteq> []" by auto
    with e(3) [OF ac]
    have "assign_con ''nln'' (getN om ''nln'') (idx_nln om) (mu_nln_l (res_mu r0))
            (mu_nln_u (res_mu r0)) (nln_order om) (Some empty_con) = Inr (res_nln r)"
      by (simp add: same)
    from con_entries [OF this i] show ?thesis .
  qed
  have c: "\<exists>c. res_cost r = Some c
               \<and> c cname = (if getN om ''cost'' cname = 0 then None
                             else Some (compute_cost om (res_x r0) cname))"
    if i: "cname \<in> set (cost_order om)"
  proof -
    from i have "cost_order om \<noteq> []" by auto
    with e(4) have "assign_cost (getN om ''cost'') (compute_cost om (res_x r0)) (cost_order om)
                      (Some Map.empty) = Inr (res_cost r)"
      by (simp add: same)
    from cost_entries [OF this i] show ?thesis .
  qed
  from v l n c show ?thesis by blast
qed


lemma block_ofD:
  assumes "block_of ii name v val" and "idx_i1 ii name = Some a" and "idx_iN ii name = Some b"
  shows "take_idx v (arange a b) = Inr val"
  using assms by (simp add: block_of_def)

theorem expander_entries_witness:
  "solved (ex_env True None) (ex_om []) (ex_ppopt False 0 False) 560 (ex_results None, True, ex_raw)
   \<and> returns (ex_env True None) (ex_om []) (ex_ppopt False 0 False)
        (returned (ex_env True None) (ex_om []) (ex_ppopt False 0 False))
   \<and> stored (fst (returned (ex_env True None) (ex_om []) (ex_ppopt False 0 False))) ''var'' ''Va''
       = Some (Slice [1, 2])
   \<and> stored (fst (returned (ex_env True None) (ex_om []) (ex_ppopt False 0 False))) ''var'' ''y''
       = None
   \<and> stored (fst (returned (ex_env True None) (ex_om []) (ex_ppopt False 0 False))) ''lin'' ''ang''
       = Some (Slice [5, 6])
   \<and> stored (fst (returned (ex_env True None) (ex_om []) (ex_ppopt False 0 False))) ''nln'' ''Pmis''
       = Some (Slice [9])
   \<and> stored (fst (returned (ex_env True None) (ex_om []) (ex_ppopt False 0 False))) ''cost'' ''usr''
       = Some (Scalar 10)"
proof -
  let ?E = "ex_env True None" and ?O = "ex_om []" and ?P = "ex_ppopt False 0 False"
  let ?T = "returned ?E ?O ?P"
  have h2: "returns ?E ?O ?P ?T"
    using ex_plain_returns by (simp add: returns_def)
  then have h3: "returns ?E ?O ?P (fst ?T, fst (snd ?T), snd (snd ?T))"
    by simp
  have mem: "''Va'' \<in> set (var_order ?O)" "''y'' \<in> set (var_order ?O)"
    "''ang'' \<in> set (lin_order ?O)" "''Pmis'' \<in> set (nln_order ?O)"
    "''usr'' \<in> set (cost_order ?O)"
    by (simp_all add: ex_om_def)
  have N: "getN ?O ''var'' ''Va'' = 2" "getN ?O ''var'' ''y'' = 0" "getN ?O ''lin'' ''ang'' = 2"
    "getN ?O ''nln'' ''Pmis'' = 1" "getN ?O ''cost'' ''usr'' = 2"
    by (simp_all add: ex_om_def ex_getN_def ex_vv_def ex_ll_def ex_nn_def ex_cc_def)
  have ac: "\<not> PF_DC ?P" by (simp add: ex_ppopt_def)
  have cost: "compute_cost ?O (res_x (ex_results None)) ''usr'' = 10"
    by (simp add: ex_om_def ex_results_def)
  have t1: "take_idx [1, 2, 3, 4 :: real] (arange 0 2) = Inr [1, 2]"
    by (simp add: take_idx_def arange_def upt_rec py_index_def)
  have t2: "take_idx [5, 6 :: real] (arange 0 2) = Inr [5, 6]"
    by (simp add: take_idx_def arange_def upt_rec py_index_def)
  have t3: "take_idx [9 :: real] (arange 0 1) = Inr [9]"
    by (simp add: take_idx_def arange_def upt_rec py_index_def)
  have iv: "idx_i1 (idx_var ?O) ''Va'' = Some 0" "idx_iN (idx_var ?O) ''Va'' = Some 2"
    by (simp_all add: idx_var_def ex_om_def ex_vv_def)
  have il: "idx_i1 (idx_lin ?O) ''ang'' = Some 0" "idx_iN (idx_lin ?O) ''ang'' = Some 2"
    by (simp_all add: idx_lin_def ex_om_def ex_ll_def)
  have inn: "idx_i1 (idx_nln ?O) ''Pmis'' = Some 0" "idx_iN (idx_nln ?O) ''Pmis'' = Some 1"
    by (simp_all add: idx_nln_def ex_om_def ex_nn_def)
  have vecs: "res_x (ex_results None) = [1, 2, 3, 4]"
    "mu_lin_l (res_mu (ex_results None)) = [5, 6]" "mu_nln_l (res_mu (ex_results None)) = [9]"
    by (simp_all add: ex_results_def ex_mu_def)
  have b1: "val = [1, 2]"
    if "block_of (idx_var ?O) ''Va'' (res_x (ex_results None)) val" for val
    using block_ofD [OF that iv] unfolding vecs t1 by simp
  have b2: "l = [5, 6]"
    if "block_of (idx_lin ?O) ''ang'' (mu_lin_l (res_mu (ex_results None))) l" for l
    using block_ofD [OF that il] unfolding vecs t2 by simp
  have b3: "l = [9]"
    if "block_of (idx_nln ?O) ''Pmis'' (mu_nln_l (res_mu (ex_results None))) l" for l
    using block_ofD [OF that inn] unfolding vecs t3 by simp
  note th = expander_entries [OF ex_plain_solved h3, of "''Va''" "''ang''" "''Pmis''" "''usr''"]
  from th mem(1) N(1) obtain v val
    where "res_var (fst ?T) = Some v" "var_val v ''Va'' = Some val"
      "block_of (idx_var ?O) ''Va'' (res_x (ex_results None)) val"
    by auto
  with b1 [of val] have va: "stored (fst ?T) ''var'' ''Va'' = Some (Slice [1, 2])"
    by (simp add: stored_def)
  from th mem(3) N(3) obtain w l
    where "res_lin (fst ?T) = Some w" "con_mu_l w ''ang'' = Some l"
      "block_of (idx_lin ?O) ''ang'' (mu_lin_l (res_mu (ex_results None))) l"
    by auto
  with b2 [of l] have ang: "stored (fst ?T) ''lin'' ''ang'' = Some (Slice [5, 6])"
    by (simp add: stored_def)
  from th mem(4) N(4) ac obtain w' l'
    where "res_nln (fst ?T) = Some w'" "con_mu_l w' ''Pmis'' = Some l'"
      "block_of (idx_nln ?O) ''Pmis'' (mu_nln_l (res_mu (ex_results None))) l'"
    by auto
  with b3 [of l'] have pmis: "stored (fst ?T) ''nln'' ''Pmis'' = Some (Slice [9])"
    by (simp add: stored_def)
  from th mem(5) N(5) cost obtain c
    where "res_cost (fst ?T) = Some c" "c ''usr'' = Some 10"
    by auto
  then have usr: "stored (fst ?T) ''cost'' ''usr'' = Some (Scalar 10)"
    by (simp add: stored_def)
  from expander_entries [OF ex_plain_solved h3, of "''y''" "''ang''" "''Pmis''" "''usr''"]
    mem(2) N(2)
  obtain v0 where "res_var (fst ?T) = Some v0" "var_val v0 ''y'' = None"
    by auto
  then have y: "stored (fst ?T) ''var'' ''y'' = None"
    by (simp add: stored_def)
  from ex_plain_solved h2 va y ang pmis usr show ?thesis by simp
qed

text \<open>
  C5 as claimed fails for the cost space: in this call the name \<open>usr\<close> is declared there
  with width two and registry range \<open>[0, 2)\<close>, and its entry in the returned results is
  the single number \<open>10\<close>, not a slice of length two.
\<close>

theorem cost_entry_not_slice_counterexample:
  "snd (opf_execute (ex_env True None) (ex_om []) (ex_ppopt False 0 False))
     = Inr (returned (ex_env True None) (ex_om []) (ex_ppopt False 0 False))
   \<and> ''usr'' \<in> set (cost_order (ex_om []))
   \<and> getN (ex_om []) ''cost'' ''usr'' = 2
   \<and> idx_i1 (idx_cost (ex_om [])) ''usr'' = Some 0
   \<and> idx_iN (idx_cost (ex_om [])) ''usr'' = Some 2
   \<and> stored (fst (returned (ex_env True None) (ex_om []) (ex_ppopt False 0 False)))
        ''cost'' ''usr'' = Some (Scalar 10)
   \<and> \<not> spec_slice_of_width
         (stored (fst (returned (ex_env True None) (ex_om []) (ex_ppopt False 0 False)))
            ''cost'' ''usr'') (2 - 0)"
  by (simp add: returned_def op_defs ex_defs update_deprecated_id upt_rec Let_def
      stored_def spec_slice_of_width_def idx_cost_def)


end
